theory Spec2Isabelle
  imports Complex_Main "HOL-Library.Word"
begin

section \<open>The HCS VRAM interceptor (pkg/interceptor/libhcs_interceptor.c)\<close>

text \<open>
  A shallow embedding of the quota engine of \<^verbatim>\<open>libhcs_interceptor.c\<close>.
  \<^item> \<^verbatim>\<open>size_t\<close>, \<^verbatim>\<open>uint64_t\<close> and pointers are 64-bit words (the library is an
    \<^verbatim>\<open>LD_PRELOAD\<close> shim for 64-bit accelerator runtimes); \<open>+\<close> and \<open>-\<close> wrap around as in C.
  \<^item> \<^verbatim>\<open>int\<close> status codes are only compared and passed on, so they are \<open>int\<close>.
  \<^item> The mutex is not modelled: the model is the behaviour of one thread.
  \<^item> \<^verbatim>\<open>HCS_LOG\<close> and \<^verbatim>\<open>format_size\<close> only write to \<^verbatim>\<open>stderr\<close> and are left out.
  \<^item> Undefined behaviour of the C program (an out-of-range conversion from \<^verbatim>\<open>double\<close>, a
    store through a null output pointer) is the result \<open>None\<close>.
\<close>

type_synonym size_t = "64 word"
type_synonym ptr = "64 word"

subsection \<open>The C library functions the parser calls\<close>

text \<open>
  \<^verbatim>\<open>isspace\<close>, \<^verbatim>\<open>tolower\<close>, \<^verbatim>\<open>strcasecmp\<close>, \<^verbatim>\<open>strncasecmp\<close> and \<^verbatim>\<open>strtod\<close> in the "C"
  locale, after ISO C11 7.4 and 7.22.1.3. A C string is the list of its characters before
  the terminating NUL.
\<close>

definition isspace_c :: "char \<Rightarrow> bool" where
  "isspace_c c = (c = CHR '' '' \<or> (9 \<le> (of_char c :: nat) \<and> (of_char c :: nat) \<le> 13))"

definition isdigit_c :: "char \<Rightarrow> bool" where
  "isdigit_c c = (48 \<le> (of_char c :: nat) \<and> (of_char c :: nat) \<le> 57)"

definition digit_val :: "char \<Rightarrow> nat" where
  "digit_val c = of_char c - 48"

definition tolower_c :: "char \<Rightarrow> char" where
  "tolower_c c = (if 65 \<le> (of_char c :: nat) \<and> (of_char c :: nat) \<le> 90
                  then char_of ((of_char c :: nat) + 32) else c)"

definition isxdigit_c :: "char \<Rightarrow> bool" where
  "isxdigit_c c = (isdigit_c c \<or>
     (97 \<le> (of_char (tolower_c c) :: nat) \<and> (of_char (tolower_c c) :: nat) \<le> 102))"

definition xdigit_val :: "char \<Rightarrow> nat" where
  "xdigit_val c = (if isdigit_c c then digit_val c else of_char (tolower_c c) - 87)"

definition strcasecmp_eq :: "string \<Rightarrow> string \<Rightarrow> bool" where
  "strcasecmp_eq a b = (map tolower_c a = map tolower_c b)"

definition strncasecmp_eq :: "string \<Rightarrow> string \<Rightarrow> nat \<Rightarrow> bool" where
  "strncasecmp_eq a b n = (map tolower_c (take n a) = map tolower_c (take n b))"

text \<open>The values of a \<^verbatim>\<open>double\<close>: the finite ones as the rationals they denote.\<close>

datatype c_double = Fin rat | Inf bool | NaN

fun bit_length :: "nat \<Rightarrow> nat" where
  "bit_length n = (if n = 0 then 0 else Suc (bit_length (n div 2)))"

declare bit_length.simps [simp del]

definition pow2 :: "int \<Rightarrow> rat" where
  "pow2 k = (if 0 \<le> k then 2 ^ nat k else 1 / 2 ^ nat (- k))"

definition pow10 :: "int \<Rightarrow> rat" where
  "pow10 k = (if 0 \<le> k then 10 ^ nat k else 1 / 10 ^ nat (- k))"

text \<open>
  \<open>floor_log2 a\<close> is the \<open>k\<close> with \<open>2 ^ k \<le> a < 2 ^ (k + 1)\<close>, for \<open>a > 0\<close>: one less than
  the number of bits of the integral part when \<open>1 \<le> a\<close>, and otherwise the negated
  least \<open>j\<close> with \<open>1 / a \<le> 2 ^ j\<close>.
\<close>

definition floor_log2 :: "rat \<Rightarrow> int" where
  "floor_log2 a =
     (if 1 \<le> a then int (bit_length (nat \<lfloor>a\<rfloor>)) - 1
      else - int (bit_length (nat (\<lceil>1 / a\<rceil> - 1))))"

definition round_half_even :: "rat \<Rightarrow> int" where
  "round_half_even x =
     (let f = \<lfloor>x\<rfloor>; r = x - of_int f
      in if r < 1 / 2 then f else if 1 / 2 < r then f + 1
         else if even f then f else f + 1)"

text \<open>
  Rounding a rational to binary64, to nearest with ties to even: 53 significant bits,
  least exponent \<open>-1074\<close>, overflow to infinity.
\<close>

definition round_double :: "rat \<Rightarrow> c_double" where
  "round_double q =
     (if q = 0 then Fin 0
      else let a = \<bar>q\<bar>;
               e = max (floor_log2 a - 52) (- 1074);
               v = of_int (round_half_even (a / pow2 e)) * pow2 e
           in if pow2 1024 \<le> v then Inf (q < 0) else Fin (if q < 0 then - v else v))"

definition digits_val :: "nat \<Rightarrow> (char \<Rightarrow> nat) \<Rightarrow> string \<Rightarrow> nat" where
  "digits_val base dv ds = foldl (\<lambda>a c. base * a + dv c) 0 ds"

text \<open>
  An optional exponent part: the marker character, an optional sign, at least one decimal
  digit. The result is the exponent and the number of characters it takes; \<open>(0, 0)\<close> when
  there is none.
\<close>

definition exponent_part :: "char \<Rightarrow> string \<Rightarrow> int \<times> nat" where
  "exponent_part mark s =
     (case s of
        [] \<Rightarrow> (0, 0)
      | c # r \<Rightarrow>
          if tolower_c c \<noteq> mark then (0, 0)
          else let (neg, sl, r') =
                     (case r of
                        [] \<Rightarrow> (False, 0, r)
                      | x # xs \<Rightarrow> if x = CHR ''-'' then (True, 1, xs)
                                  else if x = CHR ''+'' then (False, 1, xs)
                                  else (False, 0, r));
                   ds = takeWhile isdigit_c r'
               in if ds = [] then (0, 0)
                  else ((if neg then - int (digits_val 10 digit_val ds)
                         else int (digits_val 10 digit_val ds)),
                        1 + sl + length ds))"

text \<open>
  A significand in the given base: digits, optionally with one radix point, at least one
  digit in all. The result is the integer the digits spell, the number of digits after
  the point, and the number of characters taken.
\<close>

definition significand :: "(char \<Rightarrow> bool) \<Rightarrow> nat \<Rightarrow> (char \<Rightarrow> nat) \<Rightarrow> string
    \<Rightarrow> (nat \<times> nat \<times> nat) option" where
  "significand isd base dv s =
     (let d1 = takeWhile isd s; r1 = dropWhile isd s;
          (d2, dot) = (case r1 of
                         [] \<Rightarrow> ([], 0)
                       | c # r \<Rightarrow> if c = CHR ''.'' then (takeWhile isd r, 1) else ([], 0))
      in if d1 = [] \<and> d2 = [] then None
         else Some (digits_val base dv (d1 @ d2), length d2, length d1 + dot + length d2))"

definition strtod_decimal :: "string \<Rightarrow> (c_double \<times> nat) option" where
  "strtod_decimal s =
     (case significand isdigit_c 10 digit_val s of
        None \<Rightarrow> None
      | Some (m, nfrac, n) \<Rightarrow>
          let (e, en) = exponent_part (CHR ''e'') (drop n s)
          in Some (round_double (of_nat m * pow10 (e - int nfrac)), n + en))"

definition strtod_hex :: "string \<Rightarrow> (c_double \<times> nat) option" where
  "strtod_hex s =
     (if strncasecmp_eq s ''0x'' 2 then
        (case significand isxdigit_c 16 xdigit_val (drop 2 s) of
           None \<Rightarrow> None
         | Some (m, nfrac, n) \<Rightarrow>
             let (e, en) = exponent_part (CHR ''p'') (drop (2 + n) s)
             in Some (round_double (of_nat m * pow2 (e - 4 * int nfrac)), 2 + n + en))
      else None)"

definition strtod_inf :: "string \<Rightarrow> (c_double \<times> nat) option" where
  "strtod_inf s =
     (if strncasecmp_eq s ''infinity'' 8 then Some (Inf False, 8)
      else if strncasecmp_eq s ''inf'' 3 then Some (Inf False, 3)
      else None)"

definition isnchar_c :: "char \<Rightarrow> bool" where
  "isnchar_c c = (isdigit_c c \<or> c = CHR ''_'' \<or>
     (97 \<le> (of_char (tolower_c c) :: nat) \<and> (of_char (tolower_c c) :: nat) \<le> 122))"

definition strtod_nan :: "string \<Rightarrow> (c_double \<times> nat) option" where
  "strtod_nan s =
     (if strncasecmp_eq s ''nan'' 3 then
        (case drop 3 s of
           [] \<Rightarrow> Some (NaN, 3)
         | c # r \<Rightarrow>
             if c = CHR ''('' then
               (case dropWhile isnchar_c r of
                  [] \<Rightarrow> Some (NaN, 3)
                | d # _ \<Rightarrow> if d = CHR '')'' then Some (NaN, 3 + 1 + length (takeWhile isnchar_c r) + 1)
                           else Some (NaN, 3))
             else Some (NaN, 3))
      else None)"

definition negate_double :: "c_double \<Rightarrow> c_double" where
  "negate_double v = (case v of Fin q \<Rightarrow> Fin (- q) | Inf n \<Rightarrow> Inf (\<not> n) | NaN \<Rightarrow> NaN)"

text \<open>
  \<^verbatim>\<open>strtod(str, &endptr)\<close>: the value, and \<open>endptr - str\<close>. White space is skipped, then an
  optional sign, then the longest of a hexadecimal number, a decimal number, an infinity
  or a NaN. When there is no such number the value is 0 and \<open>endptr = str\<close>.
\<close>

definition strtod :: "string \<Rightarrow> c_double \<times> nat" where
  "strtod str =
     (let s0 = dropWhile isspace_c str;
          (neg, s1) = (case s0 of
                         [] \<Rightarrow> (False, s0)
                       | c # r \<Rightarrow> if c = CHR ''-'' then (True, r)
                                  else if c = CHR ''+'' then (False, r)
                                  else (False, s0));
          body = (case strtod_hex s1 of
                    Some b \<Rightarrow> Some b
                  | None \<Rightarrow> (case strtod_decimal s1 of
                      Some b \<Rightarrow> Some b
                    | None \<Rightarrow> (case strtod_inf s1 of
                        Some b \<Rightarrow> Some b
                      | None \<Rightarrow> strtod_nan s1)))
      in case body of
           None \<Rightarrow> (Fin 0, 0)
         | Some (v, n) \<Rightarrow> ((if neg then negate_double v else v),
                           (length str - length s1) + n))"

text \<open>
  \<^verbatim>\<open>value *= u\<close> for a finite positive constant \<open>u\<close>, and the conversion \<^verbatim>\<open>(size_t)value\<close>:
  truncation towards zero, undefined when the integral part is not a \<^verbatim>\<open>size_t\<close>
  (C11 6.3.1.4).
\<close>

definition mul_double :: "c_double \<Rightarrow> rat \<Rightarrow> c_double" where
  "mul_double v u = (case v of Fin q \<Rightarrow> round_double (q * u) | Inf n \<Rightarrow> Inf n | NaN \<Rightarrow> NaN)"

definition double_to_size_t :: "c_double \<Rightarrow> size_t option" where
  "double_to_size_t v =
     (case v of
        Fin q \<Rightarrow> if - 1 < q \<and> q < 2 ^ 64
                 then Some (word_of_int (if 0 \<le> q then \<lfloor>q\<rfloor> else 0))
                 else None
      | Inf n \<Rightarrow> None
      | NaN \<Rightarrow> None)"

subsection \<open>Utility functions\<close>

text \<open>\<^verbatim>\<open>parse_size_string\<close>; the argument \<open>None\<close> is the null pointer.\<close>

definition parse_size_string :: "string option \<Rightarrow> size_t option" where
  "parse_size_string str =
     (case str of
        None \<Rightarrow> Some 0
      | Some s \<Rightarrow>
          if s = [] then Some 0
          else let (v, n) = strtod s
               in if n = 0 then Some 0
                  else let endptr = dropWhile (\<lambda>c. c = CHR '' '') (drop n s);
                           v' = (if strncasecmp_eq endptr ''Gi'' 2 \<or> strncasecmp_eq endptr ''GiB'' 3
                                   then mul_double v (1024 * 1024 * 1024)
                                 else if strncasecmp_eq endptr ''G'' 1 \<or> strncasecmp_eq endptr ''GB'' 2
                                   then mul_double v (1000 * 1000 * 1000)
                                 else if strncasecmp_eq endptr ''Mi'' 2 \<or> strncasecmp_eq endptr ''MiB'' 3
                                   then mul_double v (1024 * 1024)
                                 else if strncasecmp_eq endptr ''M'' 1 \<or> strncasecmp_eq endptr ''MB'' 2
                                   then mul_double v (1000 * 1000)
                                 else if strncasecmp_eq endptr ''Ki'' 2 \<or> strncasecmp_eq endptr ''KiB'' 3
                                   then mul_double v 1024
                                 else if strncasecmp_eq endptr ''K'' 1 \<or> strncasecmp_eq endptr ''KB'' 2
                                   then mul_double v 1000
                                 else v)
                       in double_to_size_t v')"

datatype log_level_t = LOG_DEBUG | LOG_INFO | LOG_WARN | LOG_ERROR | LOG_NONE

definition parse_log_level :: "string option \<Rightarrow> log_level_t" where
  "parse_log_level str =
     (case str of
        None \<Rightarrow> LOG_WARN
      | Some s \<Rightarrow>
          if strcasecmp_eq s ''debug'' then LOG_DEBUG
          else if strcasecmp_eq s ''info'' then LOG_INFO
          else if strcasecmp_eq s ''warn'' then LOG_WARN
          else if strcasecmp_eq s ''error'' then LOG_ERROR
          else if strcasecmp_eq s ''none'' then LOG_NONE
          else LOG_WARN)"

subsection \<open>Data structures and global state\<close>

definition MAX_ALLOCATIONS :: nat where "MAX_ALLOCATIONS = 65536"
definition DEFAULT_QUOTA_GB :: size_t where "DEFAULT_QUOTA_GB = 4"

definition cudaSuccess :: int where "cudaSuccess = 0"
definition cudaErrorMemoryAllocation :: int where "cudaErrorMemoryAllocation = 2"
definition cudaErrorInvalidValue :: int where "cudaErrorInvalidValue = 1"
definition ACL_SUCCESS :: int where "ACL_SUCCESS = 0"
definition ACL_ERROR_RT_MEMORY_ALLOCATION :: int where "ACL_ERROR_RT_MEMORY_ALLOCATION = 107000"
definition ACL_ERROR_INVALID_PARAM :: int where "ACL_ERROR_INVALID_PARAM = 107001"
definition hipSuccess :: int where "hipSuccess = 0"
definition hipErrorOutOfMemory :: int where "hipErrorOutOfMemory = 2"
definition hipErrorInvalidValue :: int where "hipErrorInvalidValue = 1"

text \<open>\<^verbatim>\<open>allocation_entry_t\<close>; the field \<^verbatim>\<open>size\<close> is \<open>size_bytes\<close> here.\<close>

record allocation_entry_t =
  ptr :: ptr
  size_bytes :: size_t
  in_use :: bool

text \<open>
  \<^verbatim>\<open>quota_context_t\<close>. The array \<^verbatim>\<open>allocations\<close> and \<^verbatim>\<open>allocation_count\<close> are the list of
  the first \<^verbatim>\<open>allocation_count\<close> slots: the code never reads a slot at or beyond
  \<^verbatim>\<open>allocation_count\<close>, and writes the slot at \<^verbatim>\<open>allocation_count\<close> only when it appends.
\<close>

record quota_context_t =
  quota_limit :: size_t
  quota_used :: size_t
  allocations :: "allocation_entry_t list"
  peak_usage :: size_t
  total_allocs :: "64 word"
  total_frees :: "64 word"
  failed_allocs :: "64 word"
  log_level :: log_level_t
  initialized :: bool

definition allocation_count :: "quota_context_t \<Rightarrow> nat" where
  "allocation_count c = length (allocations c)"

text \<open>The twelve static pointers to the real vendor functions; the null pointer is 0.\<close>

datatype real_fn =
    Real_cudaMalloc | Real_cudaFree | Real_cudaMemGetInfo | Real_cudaMallocManaged
  | Real_cudaMallocHost | Real_cudaFreeHost
  | Real_aclrtMalloc | Real_aclrtFree | Real_aclrtGetMemInfo
  | Real_hipMalloc | Real_hipFree | Real_hipMemGetInfo

fun symbol_name :: "real_fn \<Rightarrow> string" where
  "symbol_name Real_cudaMalloc = ''cudaMalloc''"
| "symbol_name Real_cudaFree = ''cudaFree''"
| "symbol_name Real_cudaMemGetInfo = ''cudaMemGetInfo''"
| "symbol_name Real_cudaMallocManaged = ''cudaMallocManaged''"
| "symbol_name Real_cudaMallocHost = ''cudaMallocHost''"
| "symbol_name Real_cudaFreeHost = ''cudaFreeHost''"
| "symbol_name Real_aclrtMalloc = ''aclrtMalloc''"
| "symbol_name Real_aclrtFree = ''aclrtFree''"
| "symbol_name Real_aclrtGetMemInfo = ''aclrtGetMemInfo''"
| "symbol_name Real_hipMalloc = ''hipMalloc''"
| "symbol_name Real_hipFree = ''hipFree''"
| "symbol_name Real_hipMemGetInfo = ''hipMemGetInfo''"

record hcs_state =
  g_ctx :: quota_context_t
  real_fns :: "real_fn \<Rightarrow> ptr"

text \<open>The static initialisers of \<^verbatim>\<open>g_ctx\<close> and of the function pointers.\<close>

definition g_ctx_initial :: quota_context_t where
  "g_ctx_initial =
     \<lparr>quota_limit = 0, quota_used = 0, allocations = [], peak_usage = 0, total_allocs = 0,
      total_frees = 0, failed_allocs = 0, log_level = LOG_WARN, initialized = False\<rparr>"

definition hcs_initial :: hcs_state where
  "hcs_initial = \<lparr>g_ctx = g_ctx_initial, real_fns = (\<lambda>f. 0)\<rparr>"

text \<open>
  What the process offers the library at one call: the environment variables and the
  symbols \<^verbatim>\<open>dlsym(RTLD_NEXT, name)\<close> finds.
\<close>

record world =
  getenv :: "string \<Rightarrow> string option"
  dlsym_next :: "string \<Rightarrow> ptr"

subsection \<open>Allocation tracking\<close>

text \<open>\<^verbatim>\<open>find_allocation\<close>; \<open>None\<close> is the index \<open>-1\<close>.\<close>

fun find_allocation :: "allocation_entry_t list \<Rightarrow> ptr \<Rightarrow> nat option" where
  "find_allocation [] p = None"
| "find_allocation (e # es) p =
     (if in_use e \<and> ptr e = p then Some 0 else map_option Suc (find_allocation es p))"

text \<open>The first loop of \<^verbatim>\<open>add_allocation\<close>: the index of the first unused slot.\<close>

fun find_unused :: "allocation_entry_t list \<Rightarrow> nat option" where
  "find_unused [] = None"
| "find_unused (e # es) = (if \<not> in_use e then Some 0 else map_option Suc (find_unused es))"

definition add_allocation :: "ptr \<Rightarrow> size_t \<Rightarrow> allocation_entry_t list
    \<Rightarrow> bool \<times> allocation_entry_t list" where
  "add_allocation p sz tbl =
     (case find_unused tbl of
        Some i \<Rightarrow> (True, tbl[i := \<lparr>ptr = p, size_bytes = sz, in_use = True\<rparr>])
      | None \<Rightarrow>
          if length tbl < MAX_ALLOCATIONS
          then (True, tbl @ [\<lparr>ptr = p, size_bytes = sz, in_use = True\<rparr>])
          else (False, tbl))"

definition remove_allocation :: "ptr \<Rightarrow> allocation_entry_t list
    \<Rightarrow> size_t \<times> allocation_entry_t list" where
  "remove_allocation p tbl =
     (case find_allocation tbl p of
        Some idx \<Rightarrow> (size_bytes (tbl ! idx), tbl[idx := (tbl ! idx)\<lparr>in_use := False\<rparr>])
      | None \<Rightarrow> (0, tbl))"

subsection \<open>Initialization\<close>

definition load_real_functions :: "world \<Rightarrow> hcs_state \<Rightarrow> hcs_state" where
  "load_real_functions w s = s\<lparr>real_fns := (\<lambda>f. dlsym_next w (symbol_name f))\<rparr>"

definition hcs_init :: "world \<Rightarrow> hcs_state \<Rightarrow> hcs_state option" where
  "hcs_init w s =
     (if initialized (g_ctx s) then Some s
      else let lvl = parse_log_level (getenv w ''HCS_LOG_LEVEL'');
               quota_str = getenv w ''HCS_VRAM_QUOTA'';
               limit = (if quota_str \<noteq> None \<and> the quota_str \<noteq> []
                        then parse_size_string quota_str
                        else Some (DEFAULT_QUOTA_GB * 1024 * 1024 * 1024))
           in case limit of
                None \<Rightarrow> None
              | Some l \<Rightarrow>
                  Some (load_real_functions w
                         (s\<lparr>g_ctx := (g_ctx s)\<lparr>log_level := lvl, quota_limit := l,
                                               initialized := True\<rparr>\<rparr>)))"

subsection \<open>The intercepted functions\<close>

text \<open>
  Every intercepted function starts alike: \<^verbatim>\<open>if (!g_ctx.initialized) hcs_init();\<close> and
  then, when its pointer to the real function is null, one more \<^verbatim>\<open>dlsym\<close>. \<open>prologue\<close>
  is the state after these two steps, the state in which the function goes on.
\<close>

definition ensure_init :: "world \<Rightarrow> hcs_state \<Rightarrow> hcs_state option" where
  "ensure_init w s = (if \<not> initialized (g_ctx s) then hcs_init w s else Some s)"

definition prologue :: "world \<Rightarrow> real_fn \<Rightarrow> hcs_state \<Rightarrow> hcs_state option" where
  "prologue w f s =
     (case ensure_init w s of
        None \<Rightarrow> None
      | Some s1 \<Rightarrow>
          Some (if real_fns s1 f = 0
                then s1\<lparr>real_fns := (real_fns s1)(f := dlsym_next w (symbol_name f))\<rparr>
                else s1))"

text \<open>
  The real vendor functions are outside the program. A call of the model gets, as an
  argument, what the real function does if it is called: its return code and the values
  it leaves in the output locations. \<open>real_calls\<close> lists the calls of real functions the
  intercepted function made. Arguments that are only handed on to the real function
  (\<^verbatim>\<open>flags\<close>, \<^verbatim>\<open>policy\<close>, \<^verbatim>\<open>attr\<close>) are left out.

  An output pointer is an \<open>option\<close>: \<open>None\<close> is the null pointer, \<open>Some v\<close> a location that
  holds \<open>v\<close>.
\<close>

datatype real_call = Real_alloc real_fn size_t | Real_free real_fn ptr | Real_query real_fn

record hook_result =
  ret :: int
  real_calls :: "real_call list"
  devPtr_out :: "ptr option"
  free_out :: "size_t option"
  total_out :: "size_t option"

text \<open>
  The body shared by \<^verbatim>\<open>cudaMalloc\<close>, \<^verbatim>\<open>cudaMallocManaged\<close>, \<^verbatim>\<open>aclrtMalloc\<close> and
  \<^verbatim>\<open>hipMalloc\<close>, which differ in the real function and in the three status codes.
  \<open>(rc, h)\<close> is the real allocator's return code and the handle it leaves in \<^verbatim>\<open>*devPtr\<close>.
\<close>

definition malloc_hook :: "real_fn \<Rightarrow> int \<Rightarrow> int \<Rightarrow> int \<Rightarrow> world \<Rightarrow> ptr option \<Rightarrow> size_t
    \<Rightarrow> int \<times> ptr \<Rightarrow> hcs_state \<Rightarrow> (hook_result \<times> hcs_state) option" where
  "malloc_hook f success oom invalid w devPtr sz outcome s =
     (case prologue w f s of
        None \<Rightarrow> None
      | Some s2 \<Rightarrow>
          if real_fns s2 f = 0 then
            Some (\<lparr>ret = invalid, real_calls = [], devPtr_out = devPtr,
                   free_out = None, total_out = None\<rparr>, s2)
          else
            let c = g_ctx s2 in
            if quota_used c + sz > quota_limit c then
              Some (\<lparr>ret = oom, real_calls = [], devPtr_out = devPtr,
                     free_out = None, total_out = None\<rparr>,
                    s2\<lparr>g_ctx := c\<lparr>failed_allocs := failed_allocs c + 1\<rparr>\<rparr>)
            else
              let result = fst outcome;
                  cell = map_option (\<lambda>_. snd outcome) devPtr;
                  r = \<lparr>ret = result, real_calls = [Real_alloc f sz], devPtr_out = cell,
                       free_out = None, total_out = None\<rparr>
              in if result = success \<and> cell \<noteq> None \<and> cell \<noteq> Some 0 then
                   let used = quota_used c + sz;
                       c1 = c\<lparr>quota_used := used, total_allocs := total_allocs c + 1\<rparr>;
                       c2 = (if used > peak_usage c1 then c1\<lparr>peak_usage := used\<rparr> else c1);
                       c3 = c2\<lparr>allocations := snd (add_allocation (snd outcome) sz (allocations c2))\<rparr>
                   in Some (r, s2\<lparr>g_ctx := c3\<rparr>)
                 else Some (r, s2))"

definition cudaMalloc :: "world \<Rightarrow> ptr option \<Rightarrow> size_t \<Rightarrow> int \<times> ptr \<Rightarrow> hcs_state
    \<Rightarrow> (hook_result \<times> hcs_state) option" where
  "cudaMalloc = malloc_hook Real_cudaMalloc cudaSuccess cudaErrorMemoryAllocation
                  cudaErrorInvalidValue"

definition cudaMallocManaged :: "world \<Rightarrow> ptr option \<Rightarrow> size_t \<Rightarrow> int \<times> ptr \<Rightarrow> hcs_state
    \<Rightarrow> (hook_result \<times> hcs_state) option" where
  "cudaMallocManaged = malloc_hook Real_cudaMallocManaged cudaSuccess cudaErrorMemoryAllocation
                         cudaErrorInvalidValue"

definition aclrtMalloc :: "world \<Rightarrow> ptr option \<Rightarrow> size_t \<Rightarrow> int \<times> ptr \<Rightarrow> hcs_state
    \<Rightarrow> (hook_result \<times> hcs_state) option" where
  "aclrtMalloc = malloc_hook Real_aclrtMalloc ACL_SUCCESS ACL_ERROR_RT_MEMORY_ALLOCATION
                   ACL_ERROR_INVALID_PARAM"

definition hipMalloc :: "world \<Rightarrow> ptr option \<Rightarrow> size_t \<Rightarrow> int \<times> ptr \<Rightarrow> hcs_state
    \<Rightarrow> (hook_result \<times> hcs_state) option" where
  "hipMalloc = malloc_hook Real_hipMalloc hipSuccess hipErrorOutOfMemory hipErrorInvalidValue"

text \<open>
  The body shared by \<^verbatim>\<open>cudaFree\<close>, \<^verbatim>\<open>aclrtFree\<close> and \<^verbatim>\<open>hipFree\<close>; \<open>rc\<close> is the return code
  of the real free function.
\<close>

definition free_hook :: "real_fn \<Rightarrow> int \<Rightarrow> world \<Rightarrow> ptr \<Rightarrow> int \<Rightarrow> hcs_state
    \<Rightarrow> (hook_result \<times> hcs_state) option" where
  "free_hook f invalid w devPtr rc s =
     (case prologue w f s of
        None \<Rightarrow> None
      | Some s2 \<Rightarrow>
          if real_fns s2 f = 0 then
            Some (\<lparr>ret = invalid, real_calls = [], devPtr_out = None,
                   free_out = None, total_out = None\<rparr>, s2)
          else
            let r = \<lparr>ret = rc, real_calls = [Real_free f devPtr], devPtr_out = None,
                     free_out = None, total_out = None\<rparr>
            in if devPtr = 0 then Some (r, s2)
               else
                 let c = g_ctx s2;
                     (sz, tbl) = remove_allocation devPtr (allocations c);
                     c1 = c\<lparr>allocations := tbl\<rparr>;
                     c2 = (if sz > 0
                           then c1\<lparr>quota_used := (if quota_used c1 \<ge> sz
                                                  then quota_used c1 - sz else 0),
                                   total_frees := total_frees c1 + 1\<rparr>
                           else c1)
                 in Some (r, s2\<lparr>g_ctx := c2\<rparr>))"

definition cudaFree :: "world \<Rightarrow> ptr \<Rightarrow> int \<Rightarrow> hcs_state \<Rightarrow> (hook_result \<times> hcs_state) option" where
  "cudaFree = free_hook Real_cudaFree cudaErrorInvalidValue"

definition aclrtFree :: "world \<Rightarrow> ptr \<Rightarrow> int \<Rightarrow> hcs_state \<Rightarrow> (hook_result \<times> hcs_state) option" where
  "aclrtFree = free_hook Real_aclrtFree ACL_ERROR_INVALID_PARAM"

definition hipFree :: "world \<Rightarrow> ptr \<Rightarrow> int \<Rightarrow> hcs_state \<Rightarrow> (hook_result \<times> hcs_state) option" where
  "hipFree = free_hook Real_hipFree hipErrorInvalidValue"

text \<open>
  The body shared by \<^verbatim>\<open>cudaMemGetInfo\<close>, \<^verbatim>\<open>aclrtGetMemInfo\<close> and \<^verbatim>\<open>hipMemGetInfo\<close>.
  \<open>(rc, rfree, rtotal)\<close> is the real query's return code and the values it leaves in
  \<^verbatim>\<open>*free\<close> and \<^verbatim>\<open>*total\<close>. The code stores through \<^verbatim>\<open>total\<close> and \<^verbatim>\<open>free\<close> without a
  null check.
\<close>

definition meminfo_hook :: "real_fn \<Rightarrow> int \<Rightarrow> int \<Rightarrow> world \<Rightarrow> size_t option \<Rightarrow> size_t option
    \<Rightarrow> int \<times> size_t \<times> size_t \<Rightarrow> hcs_state \<Rightarrow> (hook_result \<times> hcs_state) option" where
  "meminfo_hook f success invalid w free_p total_p outcome s =
     (case prologue w f s of
        None \<Rightarrow> None
      | Some s2 \<Rightarrow>
          if real_fns s2 f = 0 then
            Some (\<lparr>ret = invalid, real_calls = [], devPtr_out = None,
                   free_out = free_p, total_out = total_p\<rparr>, s2)
          else
            let result = fst outcome;
                free1 = map_option (\<lambda>_. fst (snd outcome)) free_p;
                total1 = map_option (\<lambda>_. snd (snd outcome)) total_p
            in if result \<noteq> success then
                 Some (\<lparr>ret = result, real_calls = [Real_query f], devPtr_out = None,
                        free_out = free1, total_out = total1\<rparr>, s2)
               else if total_p = None \<or> free_p = None then None
               else
                 let c = g_ctx s2
                 in Some (\<lparr>ret = success, real_calls = [Real_query f], devPtr_out = None,
                           free_out = Some (if quota_limit c > quota_used c
                                            then quota_limit c - quota_used c else 0),
                           total_out = Some (quota_limit c)\<rparr>, s2))"

definition cudaMemGetInfo :: "world \<Rightarrow> size_t option \<Rightarrow> size_t option \<Rightarrow> int \<times> size_t \<times> size_t
    \<Rightarrow> hcs_state \<Rightarrow> (hook_result \<times> hcs_state) option" where
  "cudaMemGetInfo = meminfo_hook Real_cudaMemGetInfo cudaSuccess cudaErrorInvalidValue"

definition aclrtGetMemInfo :: "world \<Rightarrow> size_t option \<Rightarrow> size_t option \<Rightarrow> int \<times> size_t \<times> size_t
    \<Rightarrow> hcs_state \<Rightarrow> (hook_result \<times> hcs_state) option" where
  "aclrtGetMemInfo = meminfo_hook Real_aclrtGetMemInfo ACL_SUCCESS ACL_ERROR_INVALID_PARAM"

definition hipMemGetInfo :: "world \<Rightarrow> size_t option \<Rightarrow> size_t option \<Rightarrow> int \<times> size_t \<times> size_t
    \<Rightarrow> hcs_state \<Rightarrow> (hook_result \<times> hcs_state) option" where
  "hipMemGetInfo = meminfo_hook Real_hipMemGetInfo hipSuccess hipErrorInvalidValue"

subsection \<open>Calls and sequences of calls\<close>

text \<open>
  The ten intercepted functions as one datatype of calls, each with its arguments and with
  the outcome of the real function, so that a property can speak of every allocate call or
  of a sequence of calls.
\<close>

datatype alloc_api = Api_cudaMalloc | Api_cudaMallocManaged | Api_aclrtMalloc | Api_hipMalloc
datatype free_api = Api_cudaFree | Api_aclrtFree | Api_hipFree
datatype query_api = Api_cudaMemGetInfo | Api_aclrtGetMemInfo | Api_hipMemGetInfo

datatype call =
    Allocate alloc_api "ptr option" size_t "int \<times> ptr"
  | Release free_api ptr int
  | Query query_api "size_t option" "size_t option" "int \<times> size_t \<times> size_t"

fun exec :: "world \<Rightarrow> call \<Rightarrow> hcs_state \<Rightarrow> (hook_result \<times> hcs_state) option" where
  "exec w (Allocate Api_cudaMalloc d sz out) s = cudaMalloc w d sz out s"
| "exec w (Allocate Api_cudaMallocManaged d sz out) s = cudaMallocManaged w d sz out s"
| "exec w (Allocate Api_aclrtMalloc d sz out) s = aclrtMalloc w d sz out s"
| "exec w (Allocate Api_hipMalloc d sz out) s = hipMalloc w d sz out s"
| "exec w (Release Api_cudaFree p rc) s = cudaFree w p rc s"
| "exec w (Release Api_aclrtFree p rc) s = aclrtFree w p rc s"
| "exec w (Release Api_hipFree p rc) s = hipFree w p rc s"
| "exec w (Query Api_cudaMemGetInfo fr tot out) s = cudaMemGetInfo w fr tot out s"
| "exec w (Query Api_aclrtGetMemInfo fr tot out) s = aclrtGetMemInfo w fr tot out s"
| "exec w (Query Api_hipMemGetInfo fr tot out) s = hipMemGetInfo w fr tot out s"

text \<open>The real function behind each call, and the status codes of its vendor.\<close>

fun alloc_real :: "alloc_api \<Rightarrow> real_fn" where
  "alloc_real Api_cudaMalloc = Real_cudaMalloc"
| "alloc_real Api_cudaMallocManaged = Real_cudaMallocManaged"
| "alloc_real Api_aclrtMalloc = Real_aclrtMalloc"
| "alloc_real Api_hipMalloc = Real_hipMalloc"

fun free_real :: "free_api \<Rightarrow> real_fn" where
  "free_real Api_cudaFree = Real_cudaFree"
| "free_real Api_aclrtFree = Real_aclrtFree"
| "free_real Api_hipFree = Real_hipFree"

fun query_real :: "query_api \<Rightarrow> real_fn" where
  "query_real Api_cudaMemGetInfo = Real_cudaMemGetInfo"
| "query_real Api_aclrtGetMemInfo = Real_aclrtGetMemInfo"
| "query_real Api_hipMemGetInfo = Real_hipMemGetInfo"

fun call_real :: "call \<Rightarrow> real_fn" where
  "call_real (Allocate api d sz out) = alloc_real api"
| "call_real (Release api p rc) = free_real api"
| "call_real (Query api fr tot out) = query_real api"

datatype vendor = CUDA | ACL | HIP

fun alloc_vendor :: "alloc_api \<Rightarrow> vendor" where
  "alloc_vendor Api_cudaMalloc = CUDA"
| "alloc_vendor Api_cudaMallocManaged = CUDA"
| "alloc_vendor Api_aclrtMalloc = ACL"
| "alloc_vendor Api_hipMalloc = HIP"

fun free_vendor :: "free_api \<Rightarrow> vendor" where
  "free_vendor Api_cudaFree = CUDA"
| "free_vendor Api_aclrtFree = ACL"
| "free_vendor Api_hipFree = HIP"

fun query_vendor :: "query_api \<Rightarrow> vendor" where
  "query_vendor Api_cudaMemGetInfo = CUDA"
| "query_vendor Api_aclrtGetMemInfo = ACL"
| "query_vendor Api_hipMemGetInfo = HIP"

fun call_vendor :: "call \<Rightarrow> vendor" where
  "call_vendor (Allocate api d sz out) = alloc_vendor api"
| "call_vendor (Release api p rc) = free_vendor api"
| "call_vendor (Query api fr tot out) = query_vendor api"

fun success_code :: "vendor \<Rightarrow> int" where
  "success_code CUDA = cudaSuccess"
| "success_code ACL = ACL_SUCCESS"
| "success_code HIP = hipSuccess"

fun out_of_memory_code :: "vendor \<Rightarrow> int" where
  "out_of_memory_code CUDA = cudaErrorMemoryAllocation"
| "out_of_memory_code ACL = ACL_ERROR_RT_MEMORY_ALLOCATION"
| "out_of_memory_code HIP = hipErrorOutOfMemory"

fun invalid_argument_code :: "vendor \<Rightarrow> int" where
  "invalid_argument_code CUDA = cudaErrorInvalidValue"
| "invalid_argument_code ACL = ACL_ERROR_INVALID_PARAM"
| "invalid_argument_code HIP = hipErrorInvalidValue"

text \<open>A sequence of calls, each in the world it is made in; \<open>None\<close> is undefined behaviour.\<close>

fun run :: "(world \<times> call) list \<Rightarrow> hcs_state \<Rightarrow> hcs_state option" where
  "run [] s = Some s"
| "run ((w, c) # cs) s = (case exec w c s of None \<Rightarrow> None | Some (r, s') \<Rightarrow> run cs s')"

text \<open>The sum of the sizes of the live entries of the table, and the conservation property.\<close>

definition live_bytes :: "allocation_entry_t list \<Rightarrow> nat" where
  "live_bytes tbl = sum_list (map (\<lambda>e. unat (size_bytes e)) (filter in_use tbl))"

definition conserved :: "hcs_state \<Rightarrow> bool" where
  "conserved s = (unat (quota_used (g_ctx s)) = live_bytes (allocations (g_ctx s)))"

subsection \<open>Predicates and example inputs used in the properties\<close>

text \<open>
  A string has no leading numeric digits when its longest prefix of decimal digits is
  empty.
\<close>

definition no_leading_digits :: "string \<Rightarrow> bool" where
  "no_leading_digits str = (takeWhile isdigit_c str = [])"

text \<open>
  A string has no leading number when, after white space and one optional sign, it starts
  with neither a decimal digit, nor a point followed by a decimal digit, nor the letters
  \<^verbatim>\<open>inf\<close> or \<^verbatim>\<open>nan\<close> in any case.
\<close>

definition starts_number :: "string \<Rightarrow> bool" where
  "starts_number s =
     (case s of
        [] \<Rightarrow> False
      | c # r \<Rightarrow> isdigit_c c \<or>
                 (c = CHR ''.'' \<and> (case r of [] \<Rightarrow> False | d # r' \<Rightarrow> isdigit_c d)))"

definition skip_sign :: "string \<Rightarrow> string" where
  "skip_sign s =
     (case s of [] \<Rightarrow> [] | c # r \<Rightarrow> if c = CHR ''-'' \<or> c = CHR ''+'' then r else s)"

definition no_leading_number :: "string \<Rightarrow> bool" where
  "no_leading_number str =
     (let s1 = skip_sign (dropWhile isspace_c str)
      in \<not> starts_number s1 \<and> \<not> strncasecmp_eq s1 ''inf'' 3 \<and> \<not> strncasecmp_eq s1 ''nan'' 3)"

text \<open>
  An allocate call is tracked in a state when, at its admission check, the sum of
  \<open>quota_used\<close> and the request, as a number, is at most \<open>quota_limit\<close>, and the table can
  take the handle: it has an unused slot, or fewer than \<open>MAX_ALLOCATIONS\<close> slots. A sequence
  of calls is tracked when every allocate call in it is, in the state it is made in.
\<close>

definition call_tracked :: "world \<Rightarrow> call \<Rightarrow> hcs_state \<Rightarrow> bool" where
  "call_tracked w c s =
     (case c of
        Allocate api d sz out \<Rightarrow>
          (case prologue w (alloc_real api) s of
             None \<Rightarrow> False
           | Some s2 \<Rightarrow>
               unat (quota_used (g_ctx s2)) + unat sz \<le> unat (quota_limit (g_ctx s2))
               \<and> fst (add_allocation (snd out) sz (allocations (g_ctx s2))))
      | Release api p rc \<Rightarrow> True
      | Query api fr tot out \<Rightarrow> True)"

fun tracked :: "(world \<times> call) list \<Rightarrow> hcs_state \<Rightarrow> bool" where
  "tracked [] s = True"
| "tracked ((w, c) # cs) s =
     (call_tracked w c s \<and>
      (case exec w c s of None \<Rightarrow> False | Some (r, s') \<Rightarrow> tracked cs s'))"

text \<open>
  Example worlds: no configuration and every symbol found; no configuration and no vendor
  runtime loaded; a quota string in the environment.
\<close>

definition world_plain :: world where
  "world_plain = \<lparr>getenv = (\<lambda>n. None), dlsym_next = (\<lambda>n. 4096)\<rparr>"

definition world_bare :: world where
  "world_bare = \<lparr>getenv = (\<lambda>n. None), dlsym_next = (\<lambda>n. 0)\<rparr>"

definition world_quota :: "string \<Rightarrow> world" where
  "world_quota q =
     \<lparr>getenv = (\<lambda>n. if n = ''HCS_VRAM_QUOTA'' then Some q else None),
      dlsym_next = (\<lambda>n. 4096)\<rparr>"

text \<open>
  Example states. \<open>hcs_ready l\<close>: initialised with limit \<open>l\<close>, nothing allocated.
  \<open>hcs_bare\<close>: initialised with the default limit, no real function found.
  \<open>hcs_filled n\<close>: initialised with the default limit, after \<open>n\<close> allocations of one
  byte each, with the handles \<open>1, \<dots>, n\<close>; \<open>burst n\<close> is that sequence of calls.
  \<open>hcs_overfull\<close>: \<open>hcs_filled 65536\<close> after one more allocation of one byte.
\<close>

definition hcs_ready :: "size_t \<Rightarrow> hcs_state" where
  "hcs_ready l =
     \<lparr>g_ctx = \<lparr>quota_limit = l, quota_used = 0, allocations = [], peak_usage = 0,
               total_allocs = 0, total_frees = 0, failed_allocs = 0, log_level = LOG_WARN,
               initialized = True\<rparr>,
      real_fns = (\<lambda>f. 4096)\<rparr>"

definition hcs_bare :: hcs_state where
  "hcs_bare =
     \<lparr>g_ctx = \<lparr>quota_limit = 4294967296, quota_used = 0, allocations = [], peak_usage = 0,
               total_allocs = 0, total_frees = 0, failed_allocs = 0, log_level = LOG_WARN,
               initialized = True\<rparr>,
      real_fns = (\<lambda>f. 0)\<rparr>"

definition filled_table :: "nat \<Rightarrow> allocation_entry_t list" where
  "filled_table n = map (\<lambda>i. \<lparr>ptr = of_nat (Suc i), size_bytes = 1, in_use = True\<rparr>) [0..<n]"

definition hcs_filled :: "nat \<Rightarrow> hcs_state" where
  "hcs_filled n =
     \<lparr>g_ctx = \<lparr>quota_limit = 4294967296, quota_used = of_nat n, allocations = filled_table n,
               peak_usage = of_nat n, total_allocs = of_nat n, total_frees = 0,
               failed_allocs = 0, log_level = LOG_WARN, initialized = True\<rparr>,
      real_fns = (\<lambda>f. 4096)\<rparr>"

definition burst :: "nat \<Rightarrow> (world \<times> call) list" where
  "burst n = map (\<lambda>i. (world_plain, Allocate Api_cudaMalloc (Some 0) 1 (0, of_nat (Suc i)))) [0..<n]"

definition hcs_overfull :: hcs_state where
  "hcs_overfull =
     \<lparr>g_ctx = \<lparr>quota_limit = 4294967296, quota_used = 65537, allocations = filled_table 65536,
               peak_usage = 65537, total_allocs = 65537, total_frees = 0,
               failed_allocs = 0, log_level = LOG_WARN, initialized = True\<rparr>,
      real_fns = (\<lambda>f. 4096)\<rparr>"
section \<open>Properties\<close>

subsection \<open>What initialisation and the prologue leave alone\<close>

lemma hcs_init_frame:
  assumes "hcs_init w s = Some s1"
  shows "quota_used (g_ctx s1) = quota_used (g_ctx s)"
    and "allocations (g_ctx s1) = allocations (g_ctx s)"
    and "peak_usage (g_ctx s1) = peak_usage (g_ctx s)"
    and "total_allocs (g_ctx s1) = total_allocs (g_ctx s)"
    and "total_frees (g_ctx s1) = total_frees (g_ctx s)"
    and "failed_allocs (g_ctx s1) = failed_allocs (g_ctx s)"
    and "initialized (g_ctx s1)"
  using assms
  by (auto simp: hcs_init_def load_real_functions_def Let_def split: if_splits option.splits)

lemma ensure_init_frame:
  assumes "ensure_init w s = Some s1"
  shows "quota_used (g_ctx s1) = quota_used (g_ctx s)"
    and "allocations (g_ctx s1) = allocations (g_ctx s)"
    and "peak_usage (g_ctx s1) = peak_usage (g_ctx s)"
    and "total_allocs (g_ctx s1) = total_allocs (g_ctx s)"
    and "total_frees (g_ctx s1) = total_frees (g_ctx s)"
    and "failed_allocs (g_ctx s1) = failed_allocs (g_ctx s)"
    and "initialized (g_ctx s1)"
  using assms hcs_init_frame [of w s s1]
  by (auto simp: ensure_init_def split: if_splits)

lemma prologue_Some:
  "prologue w f s = Some s2 \<longleftrightarrow>
     (\<exists>s1. ensure_init w s = Some s1 \<and>
           s2 = (if real_fns s1 f = 0
                 then s1\<lparr>real_fns := (real_fns s1)(f := dlsym_next w (symbol_name f))\<rparr>
                 else s1))"
  by (auto simp: prologue_def split: option.splits)

lemma prologue_frame:
  assumes "prologue w f s = Some s2"
  shows "quota_used (g_ctx s2) = quota_used (g_ctx s)"
    and "allocations (g_ctx s2) = allocations (g_ctx s)"
    and "peak_usage (g_ctx s2) = peak_usage (g_ctx s)"
    and "total_allocs (g_ctx s2) = total_allocs (g_ctx s)"
    and "total_frees (g_ctx s2) = total_frees (g_ctx s)"
    and "failed_allocs (g_ctx s2) = failed_allocs (g_ctx s)"
    and "initialized (g_ctx s2)"
  using assms ensure_init_frame [of w s]
  by (auto simp: prologue_Some split: if_splits)

lemma prologue_initialized:
  "initialized (g_ctx s) \<Longrightarrow> \<exists>s2. prologue w f s = Some s2 \<and> g_ctx s2 = g_ctx s"
  by (simp add: prologue_def ensure_init_def)

lemma prologue_unresolved:
  assumes "ensure_init w s = Some s1" and "real_fns s1 f = 0"
    and "dlsym_next w (symbol_name f) = 0"
  shows "prologue w f s = Some s1"
proof -
  have "(real_fns s1)(f := 0) = real_fns s1"
    using assms(2) by auto
  then show ?thesis
    using assms by (simp add: prologue_def)
qed

subsection \<open>The calls in terms of the shared bodies\<close>

lemmas hook_defs = cudaMalloc_def cudaMallocManaged_def aclrtMalloc_def hipMalloc_def
  cudaFree_def aclrtFree_def hipFree_def cudaMemGetInfo_def aclrtGetMemInfo_def hipMemGetInfo_def

lemmas code_defs = cudaSuccess_def cudaErrorMemoryAllocation_def cudaErrorInvalidValue_def
  ACL_SUCCESS_def ACL_ERROR_RT_MEMORY_ALLOCATION_def ACL_ERROR_INVALID_PARAM_def
  hipSuccess_def hipErrorOutOfMemory_def hipErrorInvalidValue_def

lemma exec_Allocate:
  "exec w (Allocate api d sz out) s =
     malloc_hook (alloc_real api) (success_code (alloc_vendor api))
       (out_of_memory_code (alloc_vendor api))
       (invalid_argument_code (alloc_vendor api)) w d sz out s"
  by (cases api) (simp_all add: hook_defs)

lemma exec_Release:
  "exec w (Release api p rc) s =
     free_hook (free_real api) (invalid_argument_code (free_vendor api)) w p rc s"
  by (cases api) (simp_all add: hook_defs)

lemma exec_Query:
  "exec w (Query api fr tot out) s =
     meminfo_hook (query_real api) (success_code (query_vendor api))
       (invalid_argument_code (query_vendor api)) w fr tot out s"
  by (cases api) (simp_all add: hook_defs)

subsection \<open>Evaluating the example worlds and states\<close>

lemma ensure_init_world_bare: "ensure_init world_bare hcs_initial = Some hcs_bare"
  by (simp add: ensure_init_def hcs_init_def hcs_initial_def g_ctx_initial_def world_bare_def
      hcs_bare_def parse_log_level_def load_real_functions_def DEFAULT_QUOTA_GB_def)

lemma prologue_hcs_ready: "prologue world_plain f (hcs_ready l) = Some (hcs_ready l)"
  by (simp add: prologue_def ensure_init_def hcs_ready_def)

lemma prologue_hcs_filled: "prologue world_plain f (hcs_filled n) = Some (hcs_filled n)"
  by (simp add: prologue_def ensure_init_def hcs_filled_def)

subsection \<open>Unresolved bindings\<close>

text \<open>
  C8. An intercepted operation whose pointer to the real function is null after
  initialisation, and for which \<^verbatim>\<open>dlsym\<close> finds nothing at the call either, returns the
  invalid-argument code of its vendor, calls no real function, and leaves \<open>quota_used\<close>,
  \<open>peak_usage\<close>, the three counters and the allocation table as they were.
\<close>

theorem unresolved_binding_returns_invalid_argument:
  assumes "ensure_init w s = Some s1"
    and "real_fns s1 (call_real c) = 0"
    and "dlsym_next w (symbol_name (call_real c)) = 0"
  shows "\<exists>r s'. exec w c s = Some (r, s')
           \<and> ret r = invalid_argument_code (call_vendor c)
           \<and> real_calls r = []
           \<and> quota_used (g_ctx s') = quota_used (g_ctx s)
           \<and> peak_usage (g_ctx s') = peak_usage (g_ctx s)
           \<and> total_allocs (g_ctx s') = total_allocs (g_ctx s)
           \<and> total_frees (g_ctx s') = total_frees (g_ctx s)
           \<and> failed_allocs (g_ctx s') = failed_allocs (g_ctx s)
           \<and> allocations (g_ctx s') = allocations (g_ctx s)"
proof -
  have p: "prologue w (call_real c) s = Some s1"
    using assms by (rule prologue_unresolved)
  note fr = ensure_init_frame [OF assms(1)]
  show ?thesis
  proof (cases c)
    case (Allocate api d sz out)
    then show ?thesis
      using p assms(2) fr by (simp add: exec_Allocate malloc_hook_def)
  next
    case (Release api q rc)
    then show ?thesis
      using p assms(2) fr by (simp add: exec_Release free_hook_def)
  next
    case (Query api fr' tot out)
    then show ?thesis
      using p assms(2) fr by (simp add: exec_Query meminfo_hook_def)
  qed
qed

text \<open>
  The theorem at \<^verbatim>\<open>aclrtMalloc\<close>, called first in a process with no vendor runtime
  loaded: the call returns \<^verbatim>\<open>ACL_ERROR_INVALID_PARAM\<close>.
\<close>

theorem unresolved_binding_witness:
  "ensure_init world_bare hcs_initial = Some hcs_bare
   \<and> real_fns hcs_bare Real_aclrtMalloc = 0
   \<and> dlsym_next world_bare ''aclrtMalloc'' = 0
   \<and> (\<exists>r s'. exec world_bare (Allocate Api_aclrtMalloc (Some 0) 1024 (0, 8192)) hcs_initial
                 = Some (r, s')
          \<and> ret r = 107001 \<and> real_calls r = []
          \<and> quota_used (g_ctx s') = 0 \<and> peak_usage (g_ctx s') = 0
          \<and> total_allocs (g_ctx s') = 0 \<and> total_frees (g_ctx s') = 0
          \<and> failed_allocs (g_ctx s') = 0 \<and> allocations (g_ctx s') = [])"
proof -
  have h2: "real_fns hcs_bare (call_real (Allocate Api_aclrtMalloc (Some 0) 1024 (0, 8192))) = 0"
    by (simp add: hcs_bare_def)
  have h3: "dlsym_next world_bare
              (symbol_name (call_real (Allocate Api_aclrtMalloc (Some 0) 1024 (0, 8192)))) = 0"
    by (simp add: world_bare_def)
  show ?thesis
    using unresolved_binding_returns_invalid_argument [OF ensure_init_world_bare h2 h3]
      ensure_init_world_bare h2 h3
    by (simp add: code_defs hcs_initial_def g_ctx_initial_def)
qed

subsection \<open>Failure and success without a handle of the real allocator\<close>

text \<open>
  C7. When an allocate call has its binding resolved and passes the admission check, and
  the real allocator returns a code other than the vendor's success code, the call
  returns that code, and \<open>quota_used\<close>, \<open>peak_usage\<close>, \<open>total_allocs\<close>, \<open>total_frees\<close>,
  \<open>failed_allocs\<close> and the allocation table are as before the call.
\<close>

theorem real_allocator_failure_propagates:
  assumes "prologue w (alloc_real api) s = Some s2"
    and "real_fns s2 (alloc_real api) \<noteq> 0"
    and "\<not> quota_used (g_ctx s2) + sz > quota_limit (g_ctx s2)"
    and "fst outcome \<noteq> success_code (alloc_vendor api)"
  shows "\<exists>r. exec w (Allocate api d sz outcome) s = Some (r, s2)
           \<and> ret r = fst outcome
           \<and> real_calls r = [Real_alloc (alloc_real api) sz]
           \<and> quota_used (g_ctx s2) = quota_used (g_ctx s)
           \<and> peak_usage (g_ctx s2) = peak_usage (g_ctx s)
           \<and> total_allocs (g_ctx s2) = total_allocs (g_ctx s)
           \<and> total_frees (g_ctx s2) = total_frees (g_ctx s)
           \<and> failed_allocs (g_ctx s2) = failed_allocs (g_ctx s)
           \<and> allocations (g_ctx s2) = allocations (g_ctx s)"
  using assms prologue_frame [OF assms(1)]
  by (simp add: exec_Allocate malloc_hook_def Let_def)

text \<open>
  The theorem at \<^verbatim>\<open>hipMalloc\<close> of 1024 bytes under a limit of 1 GiB, where the real
  allocator returns the code 719.
\<close>

theorem real_allocator_failure_witness:
  "prologue world_plain Real_hipMalloc (hcs_ready 1073741824) = Some (hcs_ready 1073741824)
   \<and> real_fns (hcs_ready 1073741824) Real_hipMalloc \<noteq> 0
   \<and> \<not> quota_used (g_ctx (hcs_ready 1073741824)) + 1024
         > quota_limit (g_ctx (hcs_ready 1073741824))
   \<and> (719 :: int) \<noteq> hipSuccess
   \<and> (\<exists>r. exec world_plain (Allocate Api_hipMalloc (Some 0) 1024 (719, 0)) (hcs_ready 1073741824)
             = Some (r, hcs_ready 1073741824)
          \<and> ret r = 719 \<and> real_calls r = [Real_alloc Real_hipMalloc 1024])"
proof -
  have h1: "prologue world_plain (alloc_real Api_hipMalloc) (hcs_ready 1073741824)
              = Some (hcs_ready 1073741824)"
    by (rule prologue_hcs_ready)
  have h2: "real_fns (hcs_ready 1073741824) (alloc_real Api_hipMalloc) \<noteq> 0"
    by (simp add: hcs_ready_def)
  have h3: "\<not> quota_used (g_ctx (hcs_ready 1073741824)) + 1024
              > quota_limit (g_ctx (hcs_ready 1073741824))"
    by (simp add: hcs_ready_def)
  have h4: "fst (719 :: int, 0 :: ptr)
              \<noteq> success_code (alloc_vendor Api_hipMalloc)"
    by (simp add: code_defs)
  show ?thesis
    using real_allocator_failure_propagates [OF h1 h2 h3 h4] h1 h2 h3 h4
    by (simp add: code_defs)
qed

text \<open>
  C10. When an allocate call has its binding resolved and passes the admission check, and
  the real allocator returns the vendor's success code while the output pointer is null
  or the handle it wrote is null, the call returns the success code, and \<open>quota_used\<close>,
  \<open>peak_usage\<close>, \<open>total_allocs\<close> and the allocation table are as before the call.
\<close>

theorem success_without_handle_commits_nothing:
  assumes "prologue w (alloc_real api) s = Some s2"
    and "real_fns s2 (alloc_real api) \<noteq> 0"
    and "\<not> quota_used (g_ctx s2) + sz > quota_limit (g_ctx s2)"
    and "fst outcome = success_code (alloc_vendor api)"
    and "d = None \<or> snd outcome = 0"
  shows "\<exists>r. exec w (Allocate api d sz outcome) s = Some (r, s2)
           \<and> ret r = success_code (alloc_vendor api)
           \<and> quota_used (g_ctx s2) = quota_used (g_ctx s)
           \<and> peak_usage (g_ctx s2) = peak_usage (g_ctx s)
           \<and> total_allocs (g_ctx s2) = total_allocs (g_ctx s)
           \<and> allocations (g_ctx s2) = allocations (g_ctx s)"
  using assms prologue_frame [OF assms(1)]
  by (auto simp add: exec_Allocate malloc_hook_def Let_def)

text \<open>
  The theorem at \<^verbatim>\<open>cudaMalloc\<close> of 0 bytes, where the real allocator returns
  \<^verbatim>\<open>cudaSuccess\<close> and leaves a null handle.
\<close>

theorem success_without_handle_witness:
  "prologue world_plain Real_cudaMalloc (hcs_ready 1073741824) = Some (hcs_ready 1073741824)
   \<and> real_fns (hcs_ready 1073741824) Real_cudaMalloc \<noteq> 0
   \<and> \<not> quota_used (g_ctx (hcs_ready 1073741824)) + 0
         > quota_limit (g_ctx (hcs_ready 1073741824))
   \<and> (\<exists>r. exec world_plain (Allocate Api_cudaMalloc (Some 0) 0 (0, 0)) (hcs_ready 1073741824)
             = Some (r, hcs_ready 1073741824)
          \<and> ret r = cudaSuccess)"
proof -
  have h1: "prologue world_plain (alloc_real Api_cudaMalloc) (hcs_ready 1073741824)
              = Some (hcs_ready 1073741824)"
    by (rule prologue_hcs_ready)
  have h2: "real_fns (hcs_ready 1073741824) (alloc_real Api_cudaMalloc) \<noteq> 0"
    by (simp add: hcs_ready_def)
  have h3: "\<not> quota_used (g_ctx (hcs_ready 1073741824)) + 0
              > quota_limit (g_ctx (hcs_ready 1073741824))"
    by (simp add: hcs_ready_def)
  have h4: "fst (0 :: int, 0 :: ptr)
              = success_code (alloc_vendor Api_cudaMalloc)"
    by (simp add: code_defs)
  have h5: "Some (0 :: ptr) = None \<or> snd (0 :: int, 0 :: ptr) = 0"
    by simp
  show ?thesis
    using success_without_handle_commits_nothing [OF h1 h2 h3 h4 h5] h1 h2 h3
    by simp
qed

subsection \<open>Freeing a handle that is not tracked\<close>

lemma remove_allocation_untracked:
  "find_allocation tbl p = None \<Longrightarrow> remove_allocation p tbl = (0, tbl)"
  by (simp add: remove_allocation_def)

text \<open>
  C5. A free call with its binding resolved, whose handle is null or is not a live entry
  of the allocation table, leaves \<open>quota_used\<close>, \<open>peak_usage\<close>, \<open>total_allocs\<close>,
  \<open>total_frees\<close> and the table as they were, calls the real free function with that
  handle, and returns what the real free function returns.
\<close>

theorem free_of_untracked_handle_is_forwarded:
  assumes "prologue w (free_real api) s = Some s2"
    and "real_fns s2 (free_real api) \<noteq> 0"
    and "p = 0 \<or> find_allocation (allocations (g_ctx s)) p = None"
  shows "\<exists>r. exec w (Release api p rc) s = Some (r, s2)
           \<and> ret r = rc
           \<and> real_calls r = [Real_free (free_real api) p]
           \<and> quota_used (g_ctx s2) = quota_used (g_ctx s)
           \<and> peak_usage (g_ctx s2) = peak_usage (g_ctx s)
           \<and> total_allocs (g_ctx s2) = total_allocs (g_ctx s)
           \<and> total_frees (g_ctx s2) = total_frees (g_ctx s)
           \<and> allocations (g_ctx s2) = allocations (g_ctx s)"
proof (cases "p = 0")
  case True
  then show ?thesis
    using assms(1,2) prologue_frame [OF assms(1)]
    by (simp add: exec_Release free_hook_def Let_def)
next
  case False
  then have "remove_allocation p (allocations (g_ctx s2)) = (0, allocations (g_ctx s2))"
    using assms(3) prologue_frame(2) [OF assms(1)] by (simp add: remove_allocation_untracked)
  then show ?thesis
    using False assms(1,2) prologue_frame [OF assms(1)]
    by (simp add: exec_Release free_hook_def Let_def)
qed

text \<open>
  The theorem at \<^verbatim>\<open>cudaFree\<close> of the handle 12288 in a state that tracks only the handle
  1, where the real free function returns 17.
\<close>

theorem free_of_untracked_handle_witness:
  "prologue world_plain Real_cudaFree (hcs_filled 1) = Some (hcs_filled 1)
   \<and> real_fns (hcs_filled 1) Real_cudaFree \<noteq> 0
   \<and> find_allocation (allocations (g_ctx (hcs_filled 1))) 12288 = None
   \<and> (\<exists>r. exec world_plain (Release Api_cudaFree 12288 17) (hcs_filled 1) = Some (r, hcs_filled 1)
          \<and> ret r = 17 \<and> real_calls r = [Real_free Real_cudaFree 12288])"
proof -
  have h1: "prologue world_plain (free_real Api_cudaFree) (hcs_filled 1) = Some (hcs_filled 1)"
    by (rule prologue_hcs_filled)
  have h2: "real_fns (hcs_filled 1) (free_real Api_cudaFree) \<noteq> 0"
    by (simp add: hcs_filled_def)
  have h3: "find_allocation (allocations (g_ctx (hcs_filled 1))) 12288 = None"
    by (simp add: hcs_filled_def filled_table_def)
  have h3': "(12288 :: ptr) = 0 \<or> find_allocation (allocations (g_ctx (hcs_filled 1))) 12288 = None"
    using h3 by simp
  show ?thesis
    using free_of_untracked_handle_is_forwarded [OF h1 h2 h3', of 17] h1 h2 h3
    by simp
qed

subsection \<open>Memory-info virtualization\<close>




subsection \<open>The model of \<^verbatim>\<open>double\<close>\<close>

text \<open>
  \<open>bit_length\<close> and \<open>floor_log2\<close> are what their names say, so that \<open>round_double\<close>
  keeps 53 significant bits.
\<close>

lemma bit_length_0: "bit_length 0 = 0"
  by (simp add: bit_length.simps)

lemma bit_length_pos: "0 < n \<Longrightarrow> bit_length n = Suc (bit_length (n div 2))"
  by (subst bit_length.simps) simp

lemma bit_length_numeral:
  "bit_length 1 = 1"
  "bit_length (Suc 0) = 1"
  "bit_length (numeral (Num.Bit0 k)) = Suc (bit_length (numeral k))"
  "bit_length (numeral (Num.Bit1 k)) = Suc (bit_length (numeral k))"
  by (simp_all add: bit_length_pos bit_length_0)

lemma bit_length_bounds:
  "0 < n \<Longrightarrow> 2 ^ (bit_length n - 1) \<le> n \<and> n < 2 ^ bit_length n"
proof (induction n rule: bit_length.induct)
  case (1 n)
  show ?case
  proof (cases "n div 2 = 0")
    case True
    then have "n = 1" using "1.prems" by (simp add: div_eq_0_iff) 
    then show ?thesis by (simp add: bit_length_numeral)
  next
    case False
    then have h: "0 < n div 2" by simp
    have ih: "2 ^ (bit_length (n div 2) - 1) \<le> n div 2 \<and> n div 2 < 2 ^ bit_length (n div 2)"
      using "1.IH" "1.prems" h by simp
    have bl: "bit_length n = Suc (bit_length (n div 2))"
      using "1.prems" by (rule bit_length_pos)
    have b1: "1 \<le> bit_length (n div 2)"
      using h by (simp add: bit_length_pos)
    obtain m where m: "bit_length (n div 2) = Suc m"
      using b1 by (cases "bit_length (n div 2)") simp_all
    have lo: "2 ^ bit_length (n div 2) \<le> n" using ih by (simp add: m, arith)
    have hi: "n < 2 * 2 ^ bit_length (n div 2)" using ih by arith
    show ?thesis using lo hi by (simp add: bl)
  qed
qed

lemma floor_log2_bounds:
  assumes "0 < a"
  shows "pow2 (floor_log2 a) \<le> a \<and> a < pow2 (floor_log2 a + 1)"
proof (cases "1 \<le> a")
  case True
  define n where "n = nat \<lfloor>a\<rfloor>"
  have fl: "1 \<le> \<lfloor>a\<rfloor>" using True by simp
  then have n1: "0 < n" by (simp add: n_def)
  have nn: "(of_nat n :: rat) = of_int \<lfloor>a\<rfloor>"
    using fl by (simp add: n_def)
  have na: "of_nat n \<le> a" "a < of_nat n + 1"
    unfolding nn by linarith+
  note b = bit_length_bounds [OF n1]
  have bl1: "1 \<le> bit_length n" using n1 by (simp add: bit_length_pos)
  have k: "floor_log2 a = int (bit_length n) - 1"
    using True by (simp add: floor_log2_def n_def)
  have p1: "pow2 (floor_log2 a) = of_nat (2 ^ (bit_length n - 1))"
    using bl1 by (simp add: k pow2_def nat_diff_distrib)
  have p2: "pow2 (floor_log2 a + 1) = of_nat (2 ^ bit_length n)"
    by (simp add: k pow2_def)
  have "(of_nat (2 ^ (bit_length n - 1)) :: rat) \<le> of_nat n"
    using b by (simp only: of_nat_le_iff)
  then have lo: "pow2 (floor_log2 a) \<le> a" using na(1) by (simp only: p1)
  have "n + 1 \<le> 2 ^ bit_length n" using b by simp
  then have "(of_nat (n + 1) :: rat) \<le> of_nat (2 ^ bit_length n)"
    by (simp only: of_nat_le_iff)
  then have hi: "a < pow2 (floor_log2 a + 1)" using na(2) unfolding p2 by simp
  show ?thesis using lo hi by simp
next
  case False
  define b where "b = 1 / a"
  have b1: "1 < b" using False assms by (simp add: b_def)
  define m where "m = nat (\<lceil>b\<rceil> - 1)"
  have c2: "2 \<le> \<lceil>b\<rceil>" using b1 by linarith
  then have m1: "0 < m" by (simp add: m_def)
  have mb: "of_nat m < b" "b \<le> of_nat m + 1"
  proof -
    have "of_int (\<lceil>b\<rceil> - 1) < b" by linarith
    moreover have "(of_nat m :: rat) = of_int (\<lceil>b\<rceil> - 1)"
      using c2 by (simp add: m_def)
    ultimately show "of_nat m < b" by simp
    have "b \<le> of_int \<lceil>b\<rceil>" by linarith
    moreover have "(of_nat m :: rat) + 1 = of_int \<lceil>b\<rceil>"
      using c2 by (simp add: m_def)
    ultimately show "b \<le> of_nat m + 1" by simp
  qed
  note bb = bit_length_bounds [OF m1]
  define j where "j = bit_length m"
  have j1: "1 \<le> j" using m1 by (simp add: j_def bit_length_pos)
  have k: "floor_log2 a = - int j"
    using False by (simp add: floor_log2_def m_def b_def j_def)
  have p1: "pow2 (floor_log2 a) = 1 / of_nat (2 ^ j)"
    using j1 by (simp add: k pow2_def)
  have p2: "pow2 (floor_log2 a + 1) = 1 / of_nat (2 ^ (j - 1))"
  proof (cases "j = 1")
    case True
    then show ?thesis by (simp add: k pow2_def)
  next
    case False
    then have "nat (int j - 1) = j - 1" "\<not> 0 \<le> 1 - int j" using j1 by auto
    then show ?thesis by (simp add: k pow2_def)
  qed
  have "m + 1 \<le> 2 ^ j" using bb by (simp add: j_def)
  then have "(of_nat (m + 1) :: rat) \<le> of_nat (2 ^ j)" by (simp only: of_nat_le_iff)
  then have bj: "b \<le> of_nat (2 ^ j)" using mb(2) by simp
  have "(of_nat (2 ^ (j - 1)) :: rat) \<le> of_nat m" using bb by (simp only: of_nat_le_iff j_def)
  then have jb: "of_nat (2 ^ (j - 1)) < b" using mb(1) by (rule le_less_trans)
  have ab: "1 / b = a" using assms by (simp add: b_def)
  have bpos: "0 < b" using b1 by simp
  have jpos: "(0 :: rat) < of_nat (2 ^ (j - 1))" by simp
  have lo': "1 / of_nat (2 ^ j) \<le> 1 / b"
    using bj bpos by (intro divide_left_mono) simp_all
  have hi': "1 / b < 1 / of_nat (2 ^ (j - 1))"
    using jb jpos bpos by (intro divide_strict_left_mono) simp_all
  have lo: "pow2 (floor_log2 a) \<le> a"
    using lo' unfolding p1 ab .
  have hi: "a < pow2 (floor_log2 a + 1)"
    using hi' unfolding p2 ab .
  show ?thesis using lo hi by simp
qed

lemma bit_length_le: "n < 2 ^ k \<Longrightarrow> bit_length n \<le> k"
proof (induction k arbitrary: n)
  case 0
  then show ?case by (simp add: bit_length.simps)
next
  case (Suc k)
  have "n div 2 < 2 ^ k" using Suc.prems by simp
  then have "bit_length (n div 2) \<le> k" by (rule Suc.IH)
  then show ?case by (subst bit_length.simps) simp
qed

lemma round_half_even_of_int: "round_half_even (of_int z) = z"
  by (simp add: round_half_even_def)

text \<open>Every natural number below \<open>2 ^ 53\<close> is a \<^verbatim>\<open>double\<close>: rounding returns it.\<close>

lemma round_double_of_nat:
  assumes "n < 2 ^ 53"
  shows "round_double (of_nat n) = Fin (of_nat n)"
proof (cases "n = 0")
  case True
  then show ?thesis by (simp add: round_double_def)
next
  case False
  define a :: rat where "a = of_nat n"
  have a1: "1 \<le> a" using False by (simp add: a_def)
  have fl: "floor_log2 a = int (bit_length n) - 1"
    using a1 by (simp add: floor_log2_def a_def)
  have bl: "bit_length n \<le> 53" using assms by (rule bit_length_le)
  define e where "e = max (floor_log2 a - 52) (- 1074)"
  have e_le: "e \<le> 0" using bl fl by (auto simp: e_def)
  define j where "j = nat (- e)"
  have p2: "pow2 e = 1 / 2 ^ j"
    using e_le by (cases "e = 0") (auto simp: pow2_def j_def)
  have "a / pow2 e = of_int (int n * 2 ^ j)"
    by (simp add: p2 a_def)
  then have rh: "round_half_even (a / pow2 e) = int n * 2 ^ j"
    by (simp only: round_half_even_of_int)
  have v: "of_int (round_half_even (a / pow2 e)) * pow2 e = a"
    unfolding rh by (simp add: p2 a_def)
  have "(of_nat n :: rat) < 2 ^ 53"
    using assms by (metis of_nat_less_iff of_nat_numeral of_nat_power)
  also have "\<dots> \<le> 2 ^ 1024" by (rule power_increasing) simp_all
  finally have small: "\<not> pow2 1024 \<le> a" by (simp add: pow2_def a_def)
  have "round_double a = Fin a"
    using a1 v small unfolding round_double_def e_def [symmetric] Let_def
    by (simp add: e_def)
  then show ?thesis by (simp add: a_def)
qed

lemma round_double_numeral:
  "(numeral k :: nat) < 9007199254740992 \<Longrightarrow> round_double (numeral k) = Fin (numeral k)"
  using round_double_of_nat [of "numeral k"] by simp

lemma round_double_0: "round_double 0 = Fin 0"
  by (simp add: round_double_def)

lemma round_double_1: "round_double 1 = Fin 1"
  using round_double_of_nat [of 1] by simp

subsection \<open>The size-string parser\<close>

lemmas libc_defs = isspace_c_def isdigit_c_def digit_val_def tolower_c_def isxdigit_c_def
  xdigit_val_def strcasecmp_eq_def strncasecmp_eq_def pow10_def digits_val_def
  exponent_part_def significand_def strtod_decimal_def strtod_hex_def strtod_inf_def
  isnchar_c_def strtod_nan_def negate_double_def strtod_def mul_double_def
  double_to_size_t_def round_double_numeral round_double_0 round_double_1 Let_def

lemma parse_16Gi: "parse_size_string (Some ''16Gi'') = Some 17179869184"
  by (simp add: parse_size_string_def libc_defs)

lemma parse_4G: "parse_size_string (Some ''4G'') = Some 4000000000"
  by (simp add: parse_size_string_def libc_defs)

lemma parse_1024: "parse_size_string (Some ''1024'') = Some 1024"
  by (simp add: parse_size_string_def libc_defs)

lemma parse_abc: "parse_size_string (Some ''abc'') = Some 0"
  by (simp add: parse_size_string_def libc_defs)

lemma parse_zero: "parse_size_string (Some ''0'') = Some 0"
  by (simp add: parse_size_string_def libc_defs)

text \<open>
  A value that is not a \<^verbatim>\<open>double\<close> is rounded: \<^verbatim>\<open>0.1\<close> is read as the binary64 number
  \<open>3602879701896397 / 2 ^ 55\<close>.
\<close>

lemma floor_rat_numeral:
  "\<lfloor>(numeral a :: rat) / numeral b\<rfloor> = numeral a div numeral b"
  using floor_divide_of_int_eq [of "numeral a" "numeral b", where 'a = rat] by simp

lemma strtod_tenth: "strtod ''0.1'' = (Fin (3602879701896397 / 36028797018963968), 3)"
  by (simp add: strtod_def strtod_hex_def strtod_decimal_def significand_def exponent_part_def
      strncasecmp_eq_def isdigit_c_def isspace_c_def tolower_c_def digit_val_def digits_val_def
      pow10_def pow2_def round_double_def floor_log2_def round_half_even_def bit_length_numeral
      floor_rat_numeral Let_def)

text \<open>Where \<^verbatim>\<open>strtod\<close> finds no number.\<close>

lemma tolower_c_digit: "tolower_c c = CHR ''0'' \<Longrightarrow> isdigit_c c"
proof -
  assume a: "tolower_c c = CHR ''0''"
  show ?thesis
  proof (cases "65 \<le> (of_char c :: nat) \<and> (of_char c :: nat) \<le> 90")
    case True
    then have "of_char (tolower_c c) = ((of_char c :: nat) + 32) mod 256"
      by (simp add: tolower_c_def)
    then have "(of_char (tolower_c c) :: nat) = of_char c + 32"
      using True by simp
    then show ?thesis using a True by simp
  next
    case False
    then have "tolower_c c = c" by (auto simp: tolower_c_def)
    then have "c = CHR ''0''" using a by simp
    then show ?thesis by (simp add: isdigit_c_def)
  qed
qed

lemma significand_None:
  assumes "\<not> starts_number s"
  shows "significand isdigit_c 10 digit_val s = None"
proof (cases s)
  case Nil
  then show ?thesis by (simp add: significand_def)
next
  case (Cons c r)
  then have nd: "\<not> isdigit_c c" using assms by (simp add: starts_number_def)
  show ?thesis
  proof (cases "c = CHR ''.''")
    case False
    then show ?thesis using Cons nd by (simp add: significand_def)
  next
    case True
    then have "takeWhile isdigit_c r = []"
      using assms Cons by (cases r) (simp_all add: starts_number_def)
    then show ?thesis using Cons nd True by (simp add: significand_def)
  qed
qed

lemma strtod_hex_None:
  assumes "\<not> starts_number s"
  shows "strtod_hex s = None"
proof (cases s)
  case Nil
  then show ?thesis by (simp add: strtod_hex_def strncasecmp_eq_def)
next
  case (Cons c r)
  then have "\<not> isdigit_c c" using assms by (simp add: starts_number_def)
  then have c0: "tolower_c c \<noteq> CHR ''0''" using tolower_c_digit by blast
  have lit: "map tolower_c ''0x'' = ''0x''" by (simp add: tolower_c_def)
  have "\<not> strncasecmp_eq s ''0x'' 2"
  proof
    assume "strncasecmp_eq s ''0x'' 2"
    then have "map tolower_c (take 2 (c # r)) = ''0x''"
      using Cons lit by (simp add: strncasecmp_eq_def)
    then have "tolower_c c = CHR ''0''"
      by (simp add: numeral_2_eq_2)
    then show False using c0 by simp
  qed
  then show ?thesis by (simp add: strtod_hex_def)
qed

lemma strtod_inf_None:
  assumes "\<not> strncasecmp_eq s ''inf'' 3"
  shows "strtod_inf s = None"
proof -
  have "\<not> strncasecmp_eq s ''infinity'' 8"
  proof
    assume "strncasecmp_eq s ''infinity'' 8"
    then have "map tolower_c (take 8 s) = map tolower_c ''infinity''"
      by (simp add: strncasecmp_eq_def)
    then have "take 3 (map tolower_c (take 8 s)) = take 3 (map tolower_c ''infinity'')"
      by simp
    then have "map tolower_c (take 3 s) = map tolower_c ''inf''"
      by (simp add: take_map)
    then show False using assms by (simp add: strncasecmp_eq_def)
  qed
  then show ?thesis using assms by (simp add: strtod_inf_def)
qed

lemma strtod_no_number:
  assumes "no_leading_number str"
  shows "strtod str = (Fin 0, 0)"
proof -
  define s0 where "s0 = dropWhile isspace_c str"
  define s1 where "s1 = skip_sign s0"
  have n: "\<not> starts_number s1" "\<not> strncasecmp_eq s1 ''inf'' 3" "\<not> strncasecmp_eq s1 ''nan'' 3"
    using assms by (simp_all add: no_leading_number_def s1_def s0_def Let_def)
  have dec: "strtod_decimal s1 = None"
    using significand_None [OF n(1)] by (simp add: strtod_decimal_def)
  have nan: "strtod_nan s1 = None"
    using n(3) by (simp add: strtod_nan_def)
  have sgn: "(case s0 of
                [] \<Rightarrow> (False, s0)
              | c # r \<Rightarrow> if c = CHR ''-'' then (True, r)
                         else if c = CHR ''+'' then (False, r)
                         else (False, s0))
             = (case s0 of [] \<Rightarrow> False | c # r \<Rightarrow> c = CHR ''-'', s1)"
    by (cases s0) (simp_all add: s1_def skip_sign_def)
  show ?thesis
    unfolding strtod_def Let_def s0_def [symmetric] sgn
    by (simp add: strtod_hex_None [OF n(1)] dec strtod_inf_None [OF n(2)] nan)
qed

text \<open>
  C9, as amended. The parser returns 17179869184 for \<^verbatim>\<open>16Gi\<close>, 4000000000 for \<^verbatim>\<open>4G\<close> and
  1024 for \<^verbatim>\<open>1024\<close>, and 0 for every string that has no leading number: one that, after
  white space and one optional sign, starts with neither a decimal digit, nor a point
  followed by a decimal digit, nor the letters \<^verbatim>\<open>inf\<close> or \<^verbatim>\<open>nan\<close> in any case.
\<close>

theorem parse_size_string_values:
  "parse_size_string (Some ''16Gi'') = Some 17179869184
   \<and> parse_size_string (Some ''4G'') = Some 4000000000
   \<and> parse_size_string (Some ''1024'') = Some 1024
   \<and> (\<forall>str. no_leading_number str \<longrightarrow> parse_size_string (Some str) = Some 0)"
proof -
  have "parse_size_string (Some str) = Some 0" if "no_leading_number str" for str
    using strtod_no_number [OF that] by (simp add: parse_size_string_def)
  then show ?thesis
    using parse_16Gi parse_4G parse_1024 by blast
qed

text \<open>The theorem at the string \<^verbatim>\<open>abc\<close>.\<close>

theorem parser_values_witness:
  "no_leading_number ''abc'' \<and> parse_size_string (Some ''abc'') = Some 0"
proof -
  have h: "no_leading_number ''abc''"
    by (simp add: no_leading_number_def skip_sign_def starts_number_def libc_defs)
  show ?thesis
    using parse_size_string_values h by blast
qed

text \<open>
  C9 as stated fails: the string \<^verbatim>\<open>+5\<close> has no leading numeric digit, and the parser
  returns 5 for it, since \<^verbatim>\<open>strtod\<close> accepts a sign before the digits. The string \<^verbatim>\<open>nan\<close>
  has no digit at all; \<^verbatim>\<open>strtod\<close> accepts it too, so the parser does not return 0 at its
  check of \<^verbatim>\<open>endptr\<close> but goes on to convert a NaN to \<^verbatim>\<open>size_t\<close>, which is undefined.
\<close>

theorem parse_size_string_sign_counterexample:
  "no_leading_digits ''+5'' \<and> parse_size_string (Some ''+5'') = Some 5
   \<and> no_leading_digits ''nan'' \<and> parse_size_string (Some ''nan'') = None"
  by (simp add: no_leading_digits_def parse_size_string_def libc_defs)

subsection \<open>The admission check\<close>

text \<open>
  What the admission check does, in the arithmetic of \<^verbatim>\<open>size_t\<close>: a call is denied exactly
  when the wrapped sum \<open>quota_used + sz\<close> exceeds \<open>quota_limit\<close>.
\<close>

lemma allocate_denied:
  assumes "prologue w (alloc_real api) s = Some s2"
    and "real_fns s2 (alloc_real api) \<noteq> 0"
    and "quota_used (g_ctx s2) + sz > quota_limit (g_ctx s2)"
  shows "exec w (Allocate api d sz outcome) s =
           Some (\<lparr>ret = out_of_memory_code (alloc_vendor api), real_calls = [], devPtr_out = d,
                  free_out = None, total_out = None\<rparr>,
                 s2\<lparr>g_ctx := (g_ctx s2)\<lparr>failed_allocs := failed_allocs (g_ctx s2) + 1\<rparr>\<rparr>)"
  using assms by (simp add: exec_Allocate malloc_hook_def Let_def)

lemma allocate_admitted:
  assumes "prologue w (alloc_real api) s = Some s2"
    and "real_fns s2 (alloc_real api) \<noteq> 0"
    and "\<not> quota_used (g_ctx s2) + sz > quota_limit (g_ctx s2)"
  shows "\<exists>r s'. exec w (Allocate api d sz outcome) s = Some (r, s')
           \<and> ret r = fst outcome \<and> real_calls r = [Real_alloc (alloc_real api) sz]
           \<and> failed_allocs (g_ctx s') = failed_allocs (g_ctx s2)"
  using assms by (simp add: exec_Allocate malloc_hook_def Let_def)

lemma unat_add_no_wrap:
  fixes a b l :: "64 word"
  assumes "unat a + unat b \<le> unat l"
  shows "unat (a + b) = unat a + unat b" and "\<not> a + b > l"
proof -
  have "unat l < 2 ^ 64" using unsigned_less [of l, where 'a = nat] by simp
  then have "unat a + unat b < 2 ^ LENGTH(64)" using assms by simp
  then show u: "unat (a + b) = unat a + unat b" by (rule unat_add_lem [THEN iffD1])
  show "\<not> a + b > l" using assms u by (simp add: word_less_nat_alt)
qed

lemma unat_of_nat_small:
  "n < 2 ^ 64 \<Longrightarrow> unat (of_nat n :: 64 word) = n"
  by (simp add: unat_of_nat)

subsection \<open>The example states are reached from the initial state\<close>

lemma find_unused_all_live: "\<forall>e \<in> set tbl. in_use e \<Longrightarrow> find_unused tbl = None"
  by (induction tbl) simp_all

lemma find_allocation_absent: "\<forall>e \<in> set tbl. ptr e \<noteq> p \<Longrightarrow> find_allocation tbl p = None"
  by (induction tbl) simp_all

lemma length_filled_table: "length (filled_table n) = n"
  by (simp add: filled_table_def)

lemma filled_table_Suc:
  "filled_table (Suc n) = filled_table n @ [\<lparr>ptr = of_nat (Suc n), size_bytes = 1, in_use = True\<rparr>]"
  by (simp add: filled_table_def)

lemma find_unused_filled_table: "find_unused (filled_table n) = None"
  by (rule find_unused_all_live) (simp add: filled_table_def)

lemma find_allocation_filled_table:
  assumes "n < 2 ^ 64" and "n < unat p"
  shows "find_allocation (filled_table n) p = None"
proof (rule find_allocation_absent, rule ballI)
  fix e assume "e \<in> set (filled_table n)"
  then obtain i where i: "i < n" and e: "ptr e = of_nat (Suc i)"
    by (auto simp: filled_table_def)
  have "unat (of_nat (Suc i) :: 64 word) = Suc i"
    using i assms(1) by (intro unat_of_nat_small) simp
  then have "unat (ptr e) = Suc i"
    by (simp only: e)
  then show "ptr e \<noteq> p" using i assms(2) by auto
qed

lemma live_bytes_filled_table: "live_bytes (filled_table n) = n"
  by (induction n) (simp_all add: filled_table_Suc live_bytes_def, simp add: filled_table_def)

lemma hcs_init_world_plain: "hcs_init world_plain hcs_initial = Some (hcs_filled 0)"
  by (simp add: hcs_init_def hcs_initial_def g_ctx_initial_def world_plain_def hcs_filled_def
      filled_table_def parse_log_level_def load_real_functions_def DEFAULT_QUOTA_GB_def)

lemma prologue_world_plain_initial:
  "prologue world_plain f hcs_initial = Some (hcs_filled 0)"
  using hcs_init_world_plain
  by (simp add: prologue_def ensure_init_def hcs_initial_def g_ctx_initial_def hcs_filled_def)

lemma exec_burst_step_from:
  assumes "n < 65536" and "prologue world_plain Real_cudaMalloc s = Some (hcs_filled n)"
  shows "exec world_plain (Allocate Api_cudaMalloc (Some 0) 1 (0, of_nat (Suc n))) s =
           Some (\<lparr>ret = 0, real_calls = [Real_alloc Real_cudaMalloc 1],
                  devPtr_out = Some (of_nat (Suc n)), free_out = None, total_out = None\<rparr>,
                 hcs_filled (Suc n))"
proof -
  have u: "unat (of_nat n :: 64 word) = n" "unat (of_nat (Suc n) :: 64 word) = Suc n"
    using assms(1) by (intro unat_of_nat_small; simp)+
  have u3: "unat ((of_nat n :: 64 word) + 1) = Suc n" "unat (1 + (of_nat n :: 64 word)) = Suc n"
    using u(2) by (simp_all add: add.commute)
  have adm: "\<not> (of_nat n :: 64 word) + 1 > 4294967296"
    using assms(1) by (simp add: word_less_nat_alt u3)
  have nz: "(of_nat (Suc n) :: 64 word) \<noteq> 0"
    using u(2) by (metis Zero_not_Suc unat_0)
  have nz': "1 + (of_nat n :: 64 word) \<noteq> 0"
    using nz by (simp add: add.commute)
  have pk: "(of_nat n :: 64 word) + 1 > of_nat n"
    by (simp add: word_less_nat_alt u3 u(1))
  have pk': "(of_nat n :: 64 word) < 1 + of_nat n"
    using pk by (simp add: add.commute)
  have add: "add_allocation (of_nat (Suc n)) 1 (filled_table n) = (True, filled_table (Suc n))"
    using assms(1)
    by (simp add: add_allocation_def find_unused_filled_table length_filled_table
        MAX_ALLOCATIONS_def filled_table_Suc)
  have add': "add_allocation (1 + of_nat n) 1 (filled_table n) = (True, filled_table (Suc n))"
    using add by (simp add: add.commute)
  have sw: "(of_nat n :: 64 word) + 1 = 1 + of_nat n"
    by (simp add: add.commute)
  have adm': "\<not> 1 + (of_nat n :: 64 word) > 4294967296"
    using adm by (simp add: sw)
  show ?thesis
    using assms(2) adm' nz' pk' add'
    by (simp add: cudaMalloc_def malloc_hook_def Let_def hcs_filled_def code_defs sw)
qed

lemma exec_burst_step:
  assumes "n < 65536"
  shows "exec world_plain (Allocate Api_cudaMalloc (Some 0) 1 (0, of_nat (Suc n))) (hcs_filled n) =
           Some (\<lparr>ret = 0, real_calls = [Real_alloc Real_cudaMalloc 1],
                  devPtr_out = Some (of_nat (Suc n)), free_out = None, total_out = None\<rparr>,
                 hcs_filled (Suc n))"
  using assms prologue_hcs_filled by (rule exec_burst_step_from)

lemma run_append:
  "run (xs @ ys) s = (case run xs s of None \<Rightarrow> None | Some s' \<Rightarrow> run ys s')"
  by (induction xs arbitrary: s) (auto split: option.splits)

lemma burst_Suc:
  "burst (Suc n) = burst n @ [(world_plain, Allocate Api_cudaMalloc (Some 0) 1 (0, of_nat (Suc n)))]"
  by (simp add: burst_def)

lemma run_burst:
  "n < 65536 \<Longrightarrow> run (burst (Suc n)) hcs_initial = Some (hcs_filled (Suc n))"
proof (induction n)
  case 0
  have "exec world_plain (Allocate Api_cudaMalloc (Some 0) 1 (0, of_nat (Suc 0))) hcs_initial =
           Some (\<lparr>ret = 0, real_calls = [Real_alloc Real_cudaMalloc 1],
                  devPtr_out = Some (of_nat (Suc 0)), free_out = None, total_out = None\<rparr>,
                 hcs_filled (Suc 0))"
    using prologue_world_plain_initial by (intro exec_burst_step_from) simp_all
  then show ?case by (simp add: burst_def)
next
  case (Suc n)
  then have "run (burst (Suc n)) hcs_initial = Some (hcs_filled (Suc n))" by simp
  moreover have "exec world_plain (Allocate Api_cudaMalloc (Some 0) 1 (0, of_nat (Suc (Suc n))))
                   (hcs_filled (Suc n)) =
           Some (\<lparr>ret = 0, real_calls = [Real_alloc Real_cudaMalloc 1],
                  devPtr_out = Some (of_nat (Suc (Suc n))), free_out = None, total_out = None\<rparr>,
                 hcs_filled (Suc (Suc n)))"
    using Suc.prems by (rule exec_burst_step)
  ultimately show ?case
    by (subst burst_Suc) (simp add: run_append)
qed

lemma exec_overfull:
  assumes "h \<noteq> 0"
  shows "exec world_plain (Allocate Api_cudaMalloc (Some 0) 1 (0, h)) (hcs_filled 65536) =
     Some (\<lparr>ret = 0, real_calls = [Real_alloc Real_cudaMalloc 1], devPtr_out = Some h,
            free_out = None, total_out = None\<rparr>, hcs_overfull)"
proof -
  have add: "add_allocation h 1 (filled_table 65536) = (False, filled_table 65536)"
    by (simp add: add_allocation_def find_unused_filled_table length_filled_table
        MAX_ALLOCATIONS_def)
  show ?thesis
    using prologue_hcs_filled [of Real_cudaMalloc 65536] add assms
    by (simp add: cudaMalloc_def malloc_hook_def Let_def hcs_filled_def hcs_overfull_def code_defs)
qed

lemma find_allocation_overfull:
  "find_allocation (filled_table 65536) 1048576 = None"
  by (rule find_allocation_filled_table) simp_all

lemma free_overfull:
  "exec world_plain (Release Api_cudaFree 1048576 0) hcs_overfull =
     Some (\<lparr>ret = 0, real_calls = [Real_free Real_cudaFree 1048576], devPtr_out = None,
            free_out = None, total_out = None\<rparr>, hcs_overfull)"
proof -
  have p: "prologue world_plain Real_cudaFree hcs_overfull = Some hcs_overfull"
    by (simp add: prologue_def ensure_init_def hcs_overfull_def)
  have r: "remove_allocation 1048576 (allocations (g_ctx hcs_overfull))
             = (0, allocations (g_ctx hcs_overfull))"
    using find_allocation_overfull by (simp add: remove_allocation_def hcs_overfull_def)
  have nn: "real_fns hcs_overfull Real_cudaFree \<noteq> 0"
    by (simp add: hcs_overfull_def)
  show ?thesis
    using p r nn by (simp add: cudaFree_def free_hook_def Let_def)
qed

text \<open>
  C1. The claim: an allocate call with its binding resolved is denied if and only if
  used + requested > limit. The code adds in \<^verbatim>\<open>size_t\<close>, and the sum wraps around: in the
  state after one allocation of one byte under the default limit of 4 GiB, a request of
  \<open>2 ^ 64 - 1\<close> bytes has used + requested = \<open>2 ^ 64\<close>, above the limit, and yet
  \<^verbatim>\<open>cudaMalloc\<close> does not deny it: it calls the real allocator, returns what the real
  allocator returns, and leaves \<open>failed_allocs\<close> as it was.
\<close>

theorem admission_check_wraps_around:
  "run (burst 1) hcs_initial = Some (hcs_filled 1)
   \<and> unat (quota_used (g_ctx (hcs_filled 1))) + unat (18446744073709551615 :: size_t)
       > unat (quota_limit (g_ctx (hcs_filled 1)))
   \<and> exec world_plain (Allocate Api_cudaMalloc (Some 0) 18446744073709551615 (2, 0)) (hcs_filled 1)
       = Some (\<lparr>ret = 2, real_calls = [Real_alloc Real_cudaMalloc 18446744073709551615],
                devPtr_out = Some 0, free_out = None, total_out = None\<rparr>, hcs_filled 1)"
proof -
  have a: "run (burst 1) hcs_initial = Some (hcs_filled 1)"
    using run_burst [of 0] by simp
  have b: "unat (quota_used (g_ctx (hcs_filled 1))) + unat (18446744073709551615 :: size_t)
             > unat (quota_limit (g_ctx (hcs_filled 1)))"
    by (simp add: hcs_filled_def)
  have c: "exec world_plain (Allocate Api_cudaMalloc (Some 0) 18446744073709551615 (2, 0))
             (hcs_filled 1)
       = Some (\<lparr>ret = 2, real_calls = [Real_alloc Real_cudaMalloc 18446744073709551615],
                devPtr_out = Some 0, free_out = None, total_out = None\<rparr>, hcs_filled 1)"
    using prologue_hcs_filled [of Real_cudaMalloc 1]
    by (simp add: cudaMalloc_def malloc_hook_def Let_def hcs_filled_def code_defs)
  show ?thesis using a b c by simp
qed

subsection \<open>The limit after initialisation\<close>

lemma hcs_init_world_quota_zero:
  assumes "q \<noteq> []" and "parse_size_string (Some q) = Some 0"
  shows "hcs_init (world_quota q) hcs_initial = Some (hcs_ready 0)"
  using assms
  by (simp add: hcs_init_def hcs_initial_def g_ctx_initial_def world_quota_def hcs_ready_def
      parse_log_level_def load_real_functions_def)

text \<open>
  With a limit of 0 and nothing in use, every call leaves \<open>quota_used\<close> at 0: only
  requests of 0 bytes are admitted.
\<close>

lemma word_not_gt_0: "\<not> (sz :: 64 word) > 0 \<Longrightarrow> sz = 0"
  using word_neq_0_conv by blast

lemma exec_zero_limit:
  assumes "initialized (g_ctx s)" and "quota_limit (g_ctx s) = 0" and "quota_used (g_ctx s) = 0"
    and "exec w c s = Some (r, s')"
  shows "initialized (g_ctx s') \<and> quota_limit (g_ctx s') = 0 \<and> quota_used (g_ctx s') = 0"
proof -
  obtain s2 where p: "prologue w (call_real c) s = Some s2" and g: "g_ctx s2 = g_ctx s"
    using prologue_initialized [OF assms(1)] by blast
  show ?thesis
  proof (cases c)
    case (Allocate api d sz out)
    then show ?thesis
      using assms p g
      by (auto simp: exec_Allocate malloc_hook_def Let_def split: if_splits dest: word_not_gt_0)
  next
    case (Release api q rc)
    then show ?thesis
      using assms p g
      by (auto simp: exec_Release free_hook_def Let_def split: if_splits prod.splits)
  next
    case (Query api fr tot out)
    then show ?thesis
      using assms p g
      by (auto simp: exec_Query meminfo_hook_def Let_def split: if_splits)
  qed
qed

lemma run_zero_limit:
  assumes "initialized (g_ctx s)" and "quota_limit (g_ctx s) = 0" and "quota_used (g_ctx s) = 0"
    and "run cs s = Some s'"
  shows "initialized (g_ctx s') \<and> quota_limit (g_ctx s') = 0 \<and> quota_used (g_ctx s') = 0"
  using assms
proof (induction cs arbitrary: s)
  case Nil
  then show ?case by simp
next
  case (Cons wc cs)
  obtain w c where wc: "wc = (w, c)" by (cases wc)
  from Cons.prems(4) obtain r s1 where e: "exec w c s = Some (r, s1)" and r: "run cs s1 = Some s'"
    by (auto simp: wc split: option.splits)
  have "initialized (g_ctx s1) \<and> quota_limit (g_ctx s1) = 0 \<and> quota_used (g_ctx s1) = 0"
    using Cons.prems(1-3) e by (rule exec_zero_limit)
  then show ?case using Cons.IH r by blast
qed

text \<open>
  C3, as amended. After initialisation, if the quota string is unset or empty, the limit is
  the default of 4 GiB (4294967296 bytes). If it is a non-empty string for which the parser
  returns 0 (a string with no leading number, or a number that evaluates to zero), the
  limit is 0, and every later allocate call of a non-zero size with its binding resolved
  is denied: it returns the vendor's out-of-memory code and calls no real allocator.
\<close>

theorem quota_limit_after_initialization:
  assumes "\<not> initialized (g_ctx s)"
  shows "(getenv w ''HCS_VRAM_QUOTA'' = None \<or> getenv w ''HCS_VRAM_QUOTA'' = Some [] \<longrightarrow>
            (\<exists>s0. hcs_init w s = Some s0 \<and> quota_limit (g_ctx s0) = 4294967296))
       \<and> (\<forall>q. getenv w ''HCS_VRAM_QUOTA'' = Some q \<and> q \<noteq> []
               \<and> parse_size_string (Some q) = Some 0 \<and> quota_used (g_ctx s) = 0 \<longrightarrow>
            (\<exists>s0. hcs_init w s = Some s0 \<and> quota_limit (g_ctx s0) = 0
               \<and> (\<forall>cs s' w' api d sz outcome s2.
                     run cs s0 = Some s' \<and> sz \<noteq> 0
                     \<and> prologue w' (alloc_real api) s' = Some s2
                     \<and> real_fns s2 (alloc_real api) \<noteq> 0 \<longrightarrow>
                     (\<exists>r s''. exec w' (Allocate api d sz outcome) s' = Some (r, s'')
                         \<and> ret r = out_of_memory_code (alloc_vendor api)
                         \<and> real_calls r = []))))"
proof (intro conjI impI allI)
  assume "getenv w ''HCS_VRAM_QUOTA'' = None \<or> getenv w ''HCS_VRAM_QUOTA'' = Some []"
  then show "\<exists>s0. hcs_init w s = Some s0 \<and> quota_limit (g_ctx s0) = 4294967296"
    using assms by (auto simp: hcs_init_def load_real_functions_def DEFAULT_QUOTA_GB_def)
next
  fix q
  assume a: "getenv w ''HCS_VRAM_QUOTA'' = Some q \<and> q \<noteq> []
               \<and> parse_size_string (Some q) = Some 0 \<and> quota_used (g_ctx s) = 0"
  then obtain s0 where i: "hcs_init w s = Some s0" and l: "quota_limit (g_ctx s0) = 0"
    using assms by (auto simp: hcs_init_def load_real_functions_def)
  have u: "quota_used (g_ctx s0) = 0" and ini: "initialized (g_ctx s0)"
    using hcs_init_frame(1,7) [OF i] a by simp_all
  have "\<exists>r s''. exec w' (Allocate api d sz outcome) s' = Some (r, s'')
                         \<and> ret r = out_of_memory_code (alloc_vendor api)
                         \<and> real_calls r = []"
    if h: "run cs s0 = Some s' \<and> sz \<noteq> 0 \<and> prologue w' (alloc_real api) s' = Some s2
           \<and> real_fns s2 (alloc_real api) \<noteq> 0"
    for cs s' w' api d sz outcome s2
  proof -
    have z: "initialized (g_ctx s') \<and> quota_limit (g_ctx s') = 0 \<and> quota_used (g_ctx s') = 0"
      using ini l u h by (intro run_zero_limit [of s0 cs s']) simp_all
    have g: "g_ctx s2 = g_ctx s'"
      using prologue_initialized [of s' w' "alloc_real api"] z h by auto
    have "quota_used (g_ctx s2) + sz > quota_limit (g_ctx s2)"
      using z g h by (simp add: word_neq_0_conv)
    then show ?thesis
      using allocate_denied [of w' api s' s2 sz d outcome] h by simp
  qed
  then show "\<exists>s0. hcs_init w s = Some s0 \<and> quota_limit (g_ctx s0) = 0
               \<and> (\<forall>cs s' w' api d sz outcome s2.
                     run cs s0 = Some s' \<and> sz \<noteq> 0
                     \<and> prologue w' (alloc_real api) s' = Some s2
                     \<and> real_fns s2 (alloc_real api) \<noteq> 0 \<longrightarrow>
                     (\<exists>r s''. exec w' (Allocate api d sz outcome) s' = Some (r, s'')
                         \<and> ret r = out_of_memory_code (alloc_vendor api)
                         \<and> real_calls r = []))"
    using i l by blast
qed

text \<open>
  The theorem at an unset quota string, and at the quota string \<^verbatim>\<open>0\<close> followed by a
  \<^verbatim>\<open>cudaMalloc\<close> of one byte.
\<close>

theorem initialization_limit_witness:
  "\<not> initialized (g_ctx hcs_initial)
   \<and> getenv world_plain ''HCS_VRAM_QUOTA'' = None
   \<and> (\<exists>s0. hcs_init world_plain hcs_initial = Some s0 \<and> quota_limit (g_ctx s0) = 4294967296)
   \<and> getenv (world_quota ''0'') ''HCS_VRAM_QUOTA'' = Some ''0''
   \<and> parse_size_string (Some ''0'') = Some 0
   \<and> hcs_init (world_quota ''0'') hcs_initial = Some (hcs_ready 0)
   \<and> quota_limit (g_ctx (hcs_ready 0)) = 0
   \<and> (\<exists>r s''. exec world_plain (Allocate Api_cudaMalloc (Some 0) 1 (0, 4096)) (hcs_ready 0)
                  = Some (r, s'')
          \<and> ret r = cudaErrorMemoryAllocation \<and> real_calls r = [])"
proof -
  have h0: "\<not> initialized (g_ctx hcs_initial)"
    by (simp add: hcs_initial_def g_ctx_initial_def)
  have h1: "getenv world_plain ''HCS_VRAM_QUOTA'' = None"
    by (simp add: world_plain_def)
  have h2: "getenv (world_quota ''0'') ''HCS_VRAM_QUOTA'' = Some ''0''"
    by (simp add: world_quota_def)
  have h3: "quota_used (g_ctx hcs_initial) = 0"
    by (simp add: hcs_initial_def g_ctx_initial_def)
  have i0: "hcs_init (world_quota ''0'') hcs_initial = Some (hcs_ready 0)"
    using parse_zero by (intro hcs_init_world_quota_zero) simp_all
  have p: "prologue world_plain (alloc_real Api_cudaMalloc) (hcs_ready 0) = Some (hcs_ready 0)"
    by (rule prologue_hcs_ready)
  have nn: "real_fns (hcs_ready 0) (alloc_real Api_cudaMalloc) \<noteq> 0"
    by (simp add: hcs_ready_def)
  have first: "\<exists>s0. hcs_init world_plain hcs_initial = Some s0
                 \<and> quota_limit (g_ctx s0) = 4294967296"
    using quota_limit_after_initialization [OF h0, of world_plain] h1 by blast
  from quota_limit_after_initialization [OF h0, of "world_quota ''0''"] h2 parse_zero h3
  obtain s0 where s0: "hcs_init (world_quota ''0'') hcs_initial = Some s0"
      "quota_limit (g_ctx s0) = 0"
    and den: "\<And>cs s' w' api d sz outcome s2.
                run cs s0 = Some s' \<and> sz \<noteq> 0
                \<and> prologue w' (alloc_real api) s' = Some s2
                \<and> real_fns s2 (alloc_real api) \<noteq> 0 \<Longrightarrow>
                (\<exists>r s''. exec w' (Allocate api d sz outcome) s' = Some (r, s'')
                    \<and> ret r = out_of_memory_code (alloc_vendor api)
                    \<and> real_calls r = [])"
    by (metis list.distinct(1))
  have eq: "s0 = hcs_ready 0" using s0(1) i0 by simp
  have "\<exists>r s''. exec world_plain (Allocate Api_cudaMalloc (Some 0) 1 (0, 4096)) (hcs_ready 0)
                  = Some (r, s'')
          \<and> ret r = out_of_memory_code (alloc_vendor Api_cudaMalloc) \<and> real_calls r = []"
    using den [of "[]" "hcs_ready 0" 1 world_plain Api_cudaMalloc "hcs_ready 0"] p nn eq
    by simp
  then show ?thesis
    using h0 h1 h2 first i0 s0(2) eq parse_zero by simp
qed

text \<open>
  C3 as stated fails twice. The string \<^verbatim>\<open>abc\<close> has no leading number, and with it as the
  quota string the limit after initialisation is 0, not 4 GiB. And with a limit of 0 an
  allocate call of 0 bytes is not denied: \<^verbatim>\<open>cudaMalloc\<close> calls the real allocator and
  returns its code.
\<close>

theorem unparseable_quota_counterexample:
  "no_leading_number ''abc''
   \<and> hcs_init (world_quota ''abc'') hcs_initial = Some (hcs_ready 0)
   \<and> quota_limit (g_ctx (hcs_ready 0)) \<noteq> 4294967296
   \<and> exec world_plain (Allocate Api_cudaMalloc (Some 0) 0 (0, 0)) (hcs_ready 0)
       = Some (\<lparr>ret = 0, real_calls = [Real_alloc Real_cudaMalloc 0], devPtr_out = Some 0,
                free_out = None, total_out = None\<rparr>, hcs_ready 0)"
proof -
  have a: "no_leading_number ''abc''"
    by (simp add: no_leading_number_def skip_sign_def starts_number_def libc_defs)
  have b: "hcs_init (world_quota ''abc'') hcs_initial = Some (hcs_ready 0)"
    using parse_abc by (intro hcs_init_world_quota_zero) simp_all
  have c: "quota_limit (g_ctx (hcs_ready 0)) \<noteq> 4294967296"
    by (simp add: hcs_ready_def)
  have d: "exec world_plain (Allocate Api_cudaMalloc (Some 0) 0 (0, 0)) (hcs_ready 0)
       = Some (\<lparr>ret = 0, real_calls = [Real_alloc Real_cudaMalloc 0], devPtr_out = Some 0,
                free_out = None, total_out = None\<rparr>, hcs_ready 0)"
    using prologue_hcs_ready [of Real_cudaMalloc 0]
    by (simp add: cudaMalloc_def malloc_hook_def Let_def hcs_ready_def code_defs)
  show ?thesis using a b c d by simp
qed

subsection \<open>The allocation table and the bytes in use\<close>

lemma live_bytes_Nil: "live_bytes [] = 0"
  by (simp add: live_bytes_def)

lemma live_bytes_Cons:
  "live_bytes (e # es) = (if in_use e then unat (size_bytes e) else 0) + live_bytes es"
  by (simp add: live_bytes_def)

lemma live_bytes_append: "live_bytes (xs @ ys) = live_bytes xs + live_bytes ys"
  by (simp add: live_bytes_def)

lemma find_unused_Some:
  "find_unused tbl = Some i \<Longrightarrow> i < length tbl \<and> \<not> in_use (tbl ! i)"
  by (induction tbl arbitrary: i) (auto split: if_splits)

lemma find_allocation_Some:
  "find_allocation tbl p = Some i \<Longrightarrow> i < length tbl \<and> in_use (tbl ! i) \<and> ptr (tbl ! i) = p"
  by (induction tbl arbitrary: i) (auto split: if_splits)

lemma live_bytes_occupy:
  "i < length tbl \<Longrightarrow> \<not> in_use (tbl ! i) \<Longrightarrow>
     live_bytes (tbl[i := \<lparr>ptr = p, size_bytes = sz, in_use = True\<rparr>]) = live_bytes tbl + unat sz"
proof (induction tbl arbitrary: i)
  case Nil
  then show ?case by simp
next
  case (Cons e es)
  then show ?case by (cases i) (simp_all add: live_bytes_Cons)
qed

lemma live_bytes_vacate:
  "i < length tbl \<Longrightarrow> in_use (tbl ! i) \<Longrightarrow>
     live_bytes (tbl[i := (tbl ! i)\<lparr>in_use := False\<rparr>]) + unat (size_bytes (tbl ! i))
       = live_bytes tbl"
proof (induction tbl arbitrary: i)
  case Nil
  then show ?case by simp
next
  case (Cons e es)
  then show ?case by (cases i) (simp_all add: live_bytes_Cons)
qed

lemma live_bytes_add_allocation:
  assumes "fst (add_allocation p sz tbl)"
  shows "live_bytes (snd (add_allocation p sz tbl)) = live_bytes tbl + unat sz"
proof (cases "find_unused tbl")
  case None
  then show ?thesis
    using assms
    by (simp add: add_allocation_def live_bytes_append live_bytes_Cons live_bytes_Nil
        split: if_splits)
next
  case (Some i)
  then show ?thesis
    using find_unused_Some [OF Some] by (simp add: add_allocation_def live_bytes_occupy)
qed

lemma live_bytes_remove_allocation:
  "live_bytes (snd (remove_allocation p tbl)) + unat (fst (remove_allocation p tbl))
     = live_bytes tbl"
proof (cases "find_allocation tbl p")
  case None
  then show ?thesis by (simp add: remove_allocation_def)
next
  case (Some i)
  then show ?thesis
    using find_allocation_Some [OF Some] by (simp add: remove_allocation_def live_bytes_vacate)
qed

text \<open>A handle that was not live is found, after its insertion, with the size it was given.\<close>

lemma find_allocation_occupy:
  "find_allocation tbl h = None \<Longrightarrow> i < length tbl \<Longrightarrow>
     find_allocation (tbl[i := \<lparr>ptr = h, size_bytes = sz, in_use = True\<rparr>]) h = Some i"
proof (induction tbl arbitrary: i)
  case Nil
  then show ?case by simp
next
  case (Cons e es)
  then show ?case by (cases i) (auto split: if_splits)
qed

lemma find_allocation_snoc:
  "find_allocation tbl h = None \<Longrightarrow>
     find_allocation (tbl @ [\<lparr>ptr = h, size_bytes = sz, in_use = True\<rparr>]) h = Some (length tbl)"
  by (induction tbl) (auto split: if_splits)

lemma remove_after_add:
  assumes "find_allocation tbl h = None" and "fst (add_allocation h sz tbl)"
  shows "fst (remove_allocation h (snd (add_allocation h sz tbl))) = sz"
proof (cases "find_unused tbl")
  case None
  then have t: "snd (add_allocation h sz tbl) = tbl @ [\<lparr>ptr = h, size_bytes = sz, in_use = True\<rparr>]"
    using assms(2) by (simp add: add_allocation_def split: if_splits)
  show ?thesis
    unfolding t using find_allocation_snoc [OF assms(1), of sz]
    by (simp add: remove_allocation_def)
next
  case (Some i)
  then have t: "snd (add_allocation h sz tbl) = tbl[i := \<lparr>ptr = h, size_bytes = sz, in_use = True\<rparr>]"
    by (simp add: add_allocation_def)
  have i: "i < length tbl" using find_unused_Some [OF Some] by simp
  show ?thesis
    unfolding t using find_allocation_occupy [OF assms(1) i, of sz] i
    by (simp add: remove_allocation_def)
qed

subsection \<open>Allocate, then free\<close>

text \<open>
  C6, as amended. In every state, for every size S with used + S \<le> limit at the admission
  check, if the allocation table can take one more handle (it has an unused slot, or fewer
  than 65536 slots), then an allocate call of S with its binding resolved, for which the
  real allocator succeeds and returns a non-null handle that is not live in the table,
  followed by a free call of that handle with its binding resolved, leaves \<open>quota_used\<close> at
  its value before the allocate call.
\<close>

theorem allocate_then_free_restores_used:
  assumes "prologue w (alloc_real api) s = Some s2"
    and "real_fns s2 (alloc_real api) \<noteq> 0"
    and "unat (quota_used (g_ctx s2)) + unat sz \<le> unat (quota_limit (g_ctx s2))"
    and "h \<noteq> 0"
    and "find_allocation (allocations (g_ctx s)) h = None"
    and "fst (add_allocation h sz (allocations (g_ctx s)))"
  shows "\<exists>r1 s3. exec w (Allocate api (Some v) sz (success_code (alloc_vendor api), h)) s
                    = Some (r1, s3)
           \<and> ret r1 = success_code (alloc_vendor api)
           \<and> (\<forall>w' fapi rc s4.
                 prologue w' (free_real fapi) s3 = Some s4 \<and> real_fns s4 (free_real fapi) \<noteq> 0 \<longrightarrow>
                 (\<exists>r2 s5. exec w' (Release fapi h rc) s3 = Some (r2, s5)
                     \<and> ret r2 = rc
                     \<and> quota_used (g_ctx s5) = quota_used (g_ctx s)))"
proof -
  define c where "c = g_ctx s2"
  have fr: "quota_used c = quota_used (g_ctx s)" "allocations c = allocations (g_ctx s)"
    using prologue_frame(1,2) [OF assms(1)] by (simp_all add: c_def)
  note nw = unat_add_no_wrap [OF assms(3)]
  define tbl where "tbl = snd (add_allocation h sz (allocations c))"
  define c3 where "c3 = (if quota_used c + sz > peak_usage c
                         then c\<lparr>quota_used := quota_used c + sz,
                                total_allocs := total_allocs c + 1,
                                peak_usage := quota_used c + sz\<rparr>
                         else c\<lparr>quota_used := quota_used c + sz,
                                total_allocs := total_allocs c + 1\<rparr>)
                        \<lparr>allocations := tbl\<rparr>"
  define s3 where "s3 = s2\<lparr>g_ctx := c3\<rparr>"
  define r1 where "r1 = \<lparr>ret = success_code (alloc_vendor api),
                          real_calls = [Real_alloc (alloc_real api) sz], devPtr_out = Some h,
                          free_out = None, total_out = None\<rparr>"
  have ret1: "ret r1 = success_code (alloc_vendor api)"
    by (simp add: r1_def)
  have e1: "exec w (Allocate api (Some v) sz (success_code (alloc_vendor api), h)) s
              = Some (r1, s3)"
    using assms(1,2,4) nw(2)
    by (simp add: exec_Allocate malloc_hook_def Let_def s3_def c3_def tbl_def c_def r1_def)
  have u3: "quota_used c3 = quota_used c + sz" and t3: "allocations c3 = tbl"
    by (simp_all add: c3_def)
  have rm: "fst (remove_allocation h tbl) = sz"
    using assms(5,6) fr(2) by (simp add: tbl_def remove_after_add)
  have ge: "quota_used c + sz \<ge> sz"
    using nw(1) by (simp add: word_le_nat_alt c_def)
  have restore: "quota_used c + sz - sz = quota_used c" by simp
  have "\<exists>r2 s5. exec w' (Release fapi h rc) s3 = Some (r2, s5) \<and> ret r2 = rc
                   \<and> quota_used (g_ctx s5) = quota_used (g_ctx s)"
    if p: "prologue w' (free_real fapi) s3 = Some s4 \<and> real_fns s4 (free_real fapi) \<noteq> 0"
    for w' fapi rc s4
  proof -
    have "initialized (g_ctx s3)"
      using prologue_frame(7) [OF assms(1)] by (simp add: s3_def c3_def c_def)
    then have g4: "g_ctx s4 = c3"
      using prologue_initialized [of s3 w' "free_real fapi"] p by (auto simp: s3_def)
    obtain sz' tbl' where r: "remove_allocation h tbl = (sz', tbl')"
      by (cases "remove_allocation h tbl")
    then have sz': "sz' = sz" using rm by simp
    show ?thesis
    proof (cases "sz = 0")
      case True
      then show ?thesis
        using p assms(4) g4 r sz' u3 t3 fr(1)
        by (simp add: exec_Release free_hook_def Let_def)
    next
      case False
      then have "0 < sz" by (simp add: word_neq_0_conv)
      then show ?thesis
        using p assms(4) g4 r sz' u3 t3 ge restore fr(1)
        by (simp add: exec_Release free_hook_def Let_def)
    qed
  qed
  then show ?thesis using e1 ret1 by blast
qed

text \<open>
  The theorem at \<^verbatim>\<open>cudaMalloc\<close> of 500 MiB under a limit of 1 GiB with nothing in use,
  followed by \<^verbatim>\<open>cudaFree\<close> of the handle: \<open>quota_used\<close> is 0 again.
\<close>

theorem allocate_then_free_witness:
  "prologue world_plain Real_cudaMalloc (hcs_ready 1073741824) = Some (hcs_ready 1073741824)
   \<and> real_fns (hcs_ready 1073741824) Real_cudaMalloc \<noteq> 0
   \<and> unat (quota_used (g_ctx (hcs_ready 1073741824))) + unat (524288000 :: size_t)
       \<le> unat (quota_limit (g_ctx (hcs_ready 1073741824)))
   \<and> find_allocation (allocations (g_ctx (hcs_ready 1073741824))) 4096 = None
   \<and> fst (add_allocation 4096 524288000 (allocations (g_ctx (hcs_ready 1073741824))))
   \<and> (\<exists>r1 s3. exec world_plain (Allocate Api_cudaMalloc (Some 0) 524288000 (0, 4096))
                  (hcs_ready 1073741824) = Some (r1, s3)
          \<and> ret r1 = 0
          \<and> (\<exists>r2 s5. exec world_plain (Release Api_cudaFree 4096 0) s3 = Some (r2, s5)
                 \<and> quota_used (g_ctx s5) = 0))"
proof -
  have h1: "prologue world_plain (alloc_real Api_cudaMalloc) (hcs_ready 1073741824)
              = Some (hcs_ready 1073741824)"
    by (rule prologue_hcs_ready)
  have h2: "real_fns (hcs_ready 1073741824) (alloc_real Api_cudaMalloc) \<noteq> 0"
    by (simp add: hcs_ready_def)
  have h3: "unat (quota_used (g_ctx (hcs_ready 1073741824))) + unat (524288000 :: size_t)
              \<le> unat (quota_limit (g_ctx (hcs_ready 1073741824)))"
    by (simp add: hcs_ready_def)
  have h4: "(4096 :: ptr) \<noteq> 0" by simp
  have h5: "find_allocation (allocations (g_ctx (hcs_ready 1073741824))) 4096 = None"
    by (simp add: hcs_ready_def)
  have h6: "fst (add_allocation 4096 524288000 (allocations (g_ctx (hcs_ready 1073741824))))"
    by (simp add: hcs_ready_def add_allocation_def MAX_ALLOCATIONS_def)
  from allocate_then_free_restores_used [OF h1 h2 h3 h4 h5 h6, of 0]
  obtain r1 s3 where
    e1: "exec world_plain (Allocate Api_cudaMalloc (Some 0) 524288000 (0, 4096))
           (hcs_ready 1073741824) = Some (r1, s3)"
    and r1: "ret r1 = 0"
    and fr: "\<And>w' fapi rc s4.
               prologue w' (free_real fapi) s3 = Some s4 \<and> real_fns s4 (free_real fapi) \<noteq> 0 \<Longrightarrow>
               (\<exists>r2 s5. exec w' (Release fapi 4096 rc) s3 = Some (r2, s5) \<and> ret r2 = rc
                    \<and> quota_used (g_ctx s5) = quota_used (g_ctx (hcs_ready 1073741824)))"
    by (auto simp: code_defs)
  have s3: "s3 = (hcs_ready 1073741824)\<lparr>g_ctx := (g_ctx (hcs_ready 1073741824))
                   \<lparr>quota_used := 524288000, total_allocs := 1, peak_usage := 524288000,
                    allocations := [\<lparr>ptr = 4096, size_bytes = 524288000, in_use = True\<rparr>]\<rparr>\<rparr>"
    using e1 h1
    by (simp add: cudaMalloc_def malloc_hook_def Let_def hcs_ready_def code_defs
        add_allocation_def MAX_ALLOCATIONS_def)
  have p: "prologue world_plain (free_real Api_cudaFree) s3 = Some s3
           \<and> real_fns s3 (free_real Api_cudaFree) \<noteq> 0"
    by (simp add: s3 prologue_def ensure_init_def hcs_ready_def)
  have "\<exists>r2 s5. exec world_plain (Release Api_cudaFree 4096 0) s3 = Some (r2, s5)
                 \<and> quota_used (g_ctx s5) = 0"
    using fr [OF p, of 0] by (auto simp: hcs_ready_def)
  then show ?thesis
    using h1 h2 h3 h5 h6 e1 r1 by auto
qed

text \<open>
  C6 as stated fails when the table is full: in the state after 65536 allocations of one
  byte from the initial state, a further \<^verbatim>\<open>cudaMalloc\<close> of one byte is admitted and counted but not tracked, and
  \<^verbatim>\<open>cudaFree\<close> of its handle leaves \<open>quota_used\<close> at 65537 instead of 65536.
\<close>

theorem table_full_round_trip_counterexample:
  "run (burst 65536) hcs_initial = Some (hcs_filled 65536)
   \<and> unat (quota_used (g_ctx (hcs_filled 65536))) + unat (1 :: size_t)
     \<le> unat (quota_limit (g_ctx (hcs_filled 65536)))
   \<and> find_allocation (allocations (g_ctx (hcs_filled 65536))) 1048576 = None
   \<and> exec world_plain (Allocate Api_cudaMalloc (Some 0) 1 (0, 1048576)) (hcs_filled 65536)
       = Some (\<lparr>ret = 0, real_calls = [Real_alloc Real_cudaMalloc 1], devPtr_out = Some 1048576,
                free_out = None, total_out = None\<rparr>, hcs_overfull)
   \<and> exec world_plain (Release Api_cudaFree 1048576 0) hcs_overfull
       = Some (\<lparr>ret = 0, real_calls = [Real_free Real_cudaFree 1048576], devPtr_out = None,
                free_out = None, total_out = None\<rparr>, hcs_overfull)
   \<and> quota_used (g_ctx hcs_overfull) \<noteq> quota_used (g_ctx (hcs_filled 65536))"
proof -
  have a: "unat (quota_used (g_ctx (hcs_filled 65536))) + unat (1 :: size_t)
             \<le> unat (quota_limit (g_ctx (hcs_filled 65536)))"
    by (simp add: hcs_filled_def)
  have b: "find_allocation (allocations (g_ctx (hcs_filled 65536))) 1048576 = None"
    using find_allocation_overfull by (simp add: hcs_filled_def)
  have c: "quota_used (g_ctx hcs_overfull) \<noteq> quota_used (g_ctx (hcs_filled 65536))"
    by (simp add: hcs_overfull_def hcs_filled_def)
  have r: "run (burst 65536) hcs_initial = Some (hcs_filled 65536)"
    using run_burst [of 65535] by simp
  show ?thesis
    using r a b c exec_overfull [of 1048576] free_overfull by simp
qed

subsection \<open>Conservation\<close>

lemma conserved_malloc_hook:
  assumes "conserved s"
    and "prologue w f s = Some s2"
    and "unat (quota_used (g_ctx s2)) + unat sz \<le> unat (quota_limit (g_ctx s2))"
    and "fst (add_allocation (snd out) sz (allocations (g_ctx s2)))"
    and "malloc_hook f ok oom bad w d sz out s = Some (r, s')"
  shows "conserved s'"
proof -
  have c2: "conserved s2"
    using assms(1) prologue_frame(1,2) [OF assms(2)] by (simp add: conserved_def)
  note nw = unat_add_no_wrap [OF assms(3)]
  note lb = live_bytes_add_allocation [OF assms(4)]
  show ?thesis
    using assms(2,5) c2 nw lb
    by (auto simp: malloc_hook_def Let_def conserved_def split: if_splits)
qed

lemma conserved_free_hook:
  assumes "conserved s" and "free_hook f bad w p rc s = Some (r, s')"
  shows "conserved s'"
proof -
  obtain s2 where p: "prologue w f s = Some s2"
    using assms(2) by (auto simp: free_hook_def split: option.splits)
  have c2: "unat (quota_used (g_ctx s2)) = live_bytes (allocations (g_ctx s2))"
    using assms(1) prologue_frame(1,2) [OF p] by (simp add: conserved_def)
  obtain sz tbl where rm: "remove_allocation p (allocations (g_ctx s2)) = (sz, tbl)"
    by (cases "remove_allocation p (allocations (g_ctx s2))")
  have lb: "live_bytes tbl + unat sz = live_bytes (allocations (g_ctx s2))"
    using live_bytes_remove_allocation [of p "allocations (g_ctx s2)"] rm by simp
  have ge: "sz \<le> quota_used (g_ctx s2)"
    using lb c2 by (simp add: word_le_nat_alt)
  have sub: "unat (quota_used (g_ctx s2) - sz) = live_bytes tbl"
    using lb c2 by (simp add: unat_sub [OF ge])
  have z: "sz = 0 \<Longrightarrow> live_bytes tbl = live_bytes (allocations (g_ctx s2))"
    using lb by simp
  show ?thesis
    using assms(2) p c2 rm ge sub z
    by (auto simp: free_hook_def Let_def conserved_def word_neq_0_conv [symmetric]
        split: if_splits)
qed

lemma conserved_meminfo_hook:
  assumes "conserved s" and "meminfo_hook f ok bad w fr tot out s = Some (r, s')"
  shows "conserved s'"
proof -
  obtain s2 where p: "prologue w f s = Some s2"
    using assms(2) by (auto simp: meminfo_hook_def split: option.splits)
  have "conserved s2"
    using assms(1) prologue_frame(1,2) [OF p] by (simp add: conserved_def)
  then show ?thesis
    using assms(2) p by (auto simp: meminfo_hook_def Let_def split: if_splits)
qed

lemma conserved_exec:
  assumes "conserved s" and "call_tracked w c s" and "exec w c s = Some (r, s')"
  shows "conserved s'"
proof (cases c)
  case (Allocate api d sz out)
  then obtain s2 where p: "prologue w (alloc_real api) s = Some s2"
    and a: "unat (quota_used (g_ctx s2)) + unat sz \<le> unat (quota_limit (g_ctx s2))"
    and t: "fst (add_allocation (snd out) sz (allocations (g_ctx s2)))"
    using assms(2) by (auto simp: call_tracked_def split: option.splits)
  show ?thesis
    using assms(3) conserved_malloc_hook [OF assms(1) p a t]
    by (simp add: Allocate exec_Allocate)
next
  case (Release api p rc)
  then show ?thesis
    using assms(1,3) conserved_free_hook by (simp add: exec_Release)
next
  case (Query api fr tot out)
  then show ?thesis
    using assms(1,3) conserved_meminfo_hook by (simp add: exec_Query)
qed

lemma conserved_run:
  assumes "conserved s" and "tracked cs s"
  shows "\<forall>n \<le> length cs. \<exists>s'. run (take n cs) s = Some s' \<and> conserved s'"
  using assms
proof (induction cs arbitrary: s)
  case Nil
  then show ?case by simp
next
  case (Cons wc cs)
  obtain w c where wc: "wc = (w, c)" by (cases wc)
  from Cons.prems(2) obtain r s1 where ct: "call_tracked w c s"
    and e: "exec w c s = Some (r, s1)" and t: "tracked cs s1"
    by (auto simp: wc split: option.splits)
  have c1: "conserved s1" using Cons.prems(1) ct e by (rule conserved_exec)
  have ih: "\<forall>n \<le> length cs. \<exists>s'. run (take n cs) s1 = Some s' \<and> conserved s'"
    using c1 t by (rule Cons.IH)
  show ?case
  proof (intro allI impI)
    fix n assume n: "n \<le> length (wc # cs)"
    show "\<exists>s'. run (take n (wc # cs)) s = Some s' \<and> conserved s'"
    proof (cases n)
      case 0
      then show ?thesis using Cons.prems(1) by simp
    next
      case (Suc m)
      then have "m \<le> length cs" using n by simp
      then show ?thesis using ih e by (simp add: Suc wc)
    qed
  qed
qed

lemma conserved_initial: "conserved hcs_initial"
  by (simp add: conserved_def hcs_initial_def g_ctx_initial_def live_bytes_def)

text \<open>
  C2, as amended. For every single-threaded sequence of allocate and free calls that starts
  from the initial state, in which every allocate call is admitted with used + requested
  \<le> limit and finds room in the allocation table (an unused slot, or fewer than 65536
  slots), after each call \<open>quota_used\<close> equals the sum of the sizes of the live entries of
  the table.
\<close>

theorem used_equals_live_bytes:
  assumes "tracked cs hcs_initial"
  shows "\<forall>n \<le> length cs. \<exists>s. run (take n cs) hcs_initial = Some s \<and> conserved s"
  using conserved_initial assms by (rule conserved_run)

text \<open>
  The theorem at the sequence \<^verbatim>\<open>cudaMalloc\<close> of 500 MiB, \<^verbatim>\<open>cudaFree\<close> of its handle, from
  the initial state under the default limit.
\<close>

theorem conservation_witness:
  "tracked [(world_plain, Allocate Api_cudaMalloc (Some 0) 524288000 (0, 4096)),
            (world_plain, Release Api_cudaFree 4096 0)] hcs_initial
   \<and> (\<exists>s. run [(world_plain, Allocate Api_cudaMalloc (Some 0) 524288000 (0, 4096)),
                (world_plain, Release Api_cudaFree 4096 0)] hcs_initial = Some s
          \<and> conserved s)"
proof -
  define s1 where "s1 = (hcs_filled 0)\<lparr>g_ctx := (g_ctx (hcs_filled 0))
                   \<lparr>quota_used := 524288000, total_allocs := 1, peak_usage := 524288000,
                    allocations := [\<lparr>ptr = 4096, size_bytes = 524288000, in_use = True\<rparr>]\<rparr>\<rparr>"
  have e1: "exec world_plain (Allocate Api_cudaMalloc (Some 0) 524288000 (0, 4096)) hcs_initial
              = Some (\<lparr>ret = 0, real_calls = [Real_alloc Real_cudaMalloc 524288000],
                       devPtr_out = Some 4096, free_out = None, total_out = None\<rparr>, s1)"
    using prologue_world_plain_initial [of Real_cudaMalloc]
    by (simp add: cudaMalloc_def malloc_hook_def Let_def hcs_filled_def filled_table_def
        code_defs add_allocation_def MAX_ALLOCATIONS_def s1_def)
  have t1: "call_tracked world_plain (Allocate Api_cudaMalloc (Some 0) 524288000 (0, 4096))
              hcs_initial"
    using prologue_world_plain_initial [of Real_cudaMalloc]
    by (simp add: call_tracked_def hcs_filled_def filled_table_def add_allocation_def
        MAX_ALLOCATIONS_def)
  have p2: "prologue world_plain Real_cudaFree s1 = Some s1"
    by (simp add: prologue_def ensure_init_def s1_def hcs_filled_def)
  have e2: "\<exists>r s2. exec world_plain (Release Api_cudaFree 4096 0) s1 = Some (r, s2)"
    using p2 by (simp add: cudaFree_def free_hook_def Let_def split: prod.splits)
  have t: "tracked [(world_plain, Allocate Api_cudaMalloc (Some 0) 524288000 (0, 4096)),
                    (world_plain, Release Api_cudaFree 4096 0)] hcs_initial"
    using e1 t1 e2 by (auto simp: call_tracked_def)
  show ?thesis
    using used_equals_live_bytes [OF t, rule_format, of 2] t by simp
qed

text \<open>
  C2 as stated fails when the table is full: after 65537 admitted allocations of one byte
  from the initial state, \<open>quota_used\<close> is 65537 and the live entries sum to 65536.
\<close>

theorem table_full_conservation_counterexample:
  "run (burst 65537) hcs_initial = Some hcs_overfull
   \<and> failed_allocs (g_ctx hcs_overfull) = 0
   \<and> unat (quota_used (g_ctx hcs_overfull)) = 65537
   \<and> live_bytes (allocations (g_ctx hcs_overfull)) = 65536
   \<and> \<not> conserved hcs_overfull"
proof -
  have r: "run (burst 65536) hcs_initial = Some (hcs_filled 65536)"
    using run_burst [of 65535] by simp
  have n: "(65537 :: nat) = Suc 65536" by simp
  have e: "exec world_plain (Allocate Api_cudaMalloc (Some 0) 1 (0, of_nat (Suc 65536)))
             (hcs_filled 65536)
           = Some (\<lparr>ret = 0, real_calls = [Real_alloc Real_cudaMalloc 1],
                    devPtr_out = Some (of_nat (Suc 65536)), free_out = None,
                    total_out = None\<rparr>, hcs_overfull)"
    by (rule exec_overfull) simp
  have a: "run (burst 65537) hcs_initial = Some hcs_overfull"
    unfolding n burst_Suc run_append r using e by simp
  have b: "failed_allocs (g_ctx hcs_overfull) = 0"
    and c: "unat (quota_used (g_ctx hcs_overfull)) = 65537"
    by (simp_all add: hcs_overfull_def)
  have d: "live_bytes (allocations (g_ctx hcs_overfull)) = 65536"
    using live_bytes_filled_table [of 65536] by (simp add: hcs_overfull_def)
  have "\<not> conserved hcs_overfull"
    using c d by (simp add: conserved_def)
  then show ?thesis using a b c d by simp
qed

end
